theory Spec2Isabelle
  imports Complex_Main "HOL-Library.Multiset"
begin

section \<open>JavaScript numbers and the runtime\<close>

text \<open>
  A JavaScript number is an IEEE 754 double. Its value is a real number, an infinity or
  \<open>NaN\<close>; the two zeros are one value (this program starts every sum at \<open>+0\<close> and
  takes square roots of sums of squares, so it never divides by a negative zero).
  Comparison of two doubles is exact on their values and is false next to \<open>NaN\<close>.
  \<^verbatim>\<open>undefined\<close> in arithmetic converts to \<open>NaN\<close>.
\<close>

datatype jsnum = Num real | PosInf | NegInf | NaN

fun js_gt :: "jsnum \<Rightarrow> jsnum \<Rightarrow> bool" where
  "js_gt (Num x) (Num y) = (x > y)"
| "js_gt NaN v = False"
| "js_gt v NaN = False"
| "js_gt PosInf PosInf = False"
| "js_gt PosInf v = True"
| "js_gt v PosInf = False"
| "js_gt NegInf v = False"
| "js_gt (Num x) NegInf = True"

text \<open>
  The arithmetic of doubles rounds, underflows and overflows, and is a built-in of the
  language: \<^verbatim>\<open>+\<close>, \<^verbatim>\<open>-\<close>, \<^verbatim>\<open>*\<close>, \<^verbatim>\<open>/\<close> and \<^verbatim>\<open>Math.sqrt\<close> are parameters
  of the model, and no rounding is computed here. What the proofs use of them are laws
  of IEEE 754 (\<open>ieee\<close>): \<open>NaN\<close> operands give \<open>NaN\<close>; a product with zero is zero,
  or \<open>NaN\<close> when the other factor is not finite; \<open>0 + 0 = 0\<close>, \<open>sqrt 0 = 0\<close> and
  \<open>0 / 0 = NaN\<close>; and the difference of two finite doubles is never \<open>NaN\<close> and has
  the sign of their comparison (it is zero only when the operands are equal).
\<close>

record arithmetic =
  fadd :: "jsnum \<Rightarrow> jsnum \<Rightarrow> jsnum"
  fsub :: "jsnum \<Rightarrow> jsnum \<Rightarrow> jsnum"
  fmul :: "jsnum \<Rightarrow> jsnum \<Rightarrow> jsnum"
  fdiv :: "jsnum \<Rightarrow> jsnum \<Rightarrow> jsnum"
  fsqrt :: "jsnum \<Rightarrow> jsnum"

definition ieee :: "arithmetic \<Rightarrow> bool" where
  "ieee ar =
     ((\<forall>v. fadd ar NaN v = NaN \<and> fadd ar v NaN = NaN \<and>
           fmul ar NaN v = NaN \<and> fmul ar v NaN = NaN \<and>
           fdiv ar NaN v = NaN \<and> fdiv ar v NaN = NaN) \<and>
      (\<forall>x. fmul ar (Num 0) (Num x) = Num 0 \<and> fmul ar (Num x) (Num 0) = Num 0) \<and>
      (\<forall>v. (fmul ar (Num 0) v = Num 0 \<or> fmul ar (Num 0) v = NaN) \<and>
           (fmul ar v (Num 0) = Num 0 \<or> fmul ar v (Num 0) = NaN)) \<and>
      fadd ar (Num 0) (Num 0) = Num 0 \<and>
      fsqrt ar (Num 0) = Num 0 \<and>
      fdiv ar (Num 0) (Num 0) = NaN \<and>
      (\<forall>x y. fsub ar (Num x) (Num y) \<noteq> NaN \<and>
             js_gt (fsub ar (Num x) (Num y)) (Num 0) = (y < x) \<and>
             js_gt (Num 0) (fsub ar (Num x) (Num y)) = (x < y)))"

text \<open>
  \<^verbatim>\<open>Array.prototype.sort(comparefn)\<close> is a built-in as well, and a parameter of the
  model. ECMAScript reads a \<open>NaN\<close> result of the comparator as \<open>+0\<close>
  (\<open>sortCompare\<close>) and requires of every implementation (\<open>sortContract\<close>): the result
  is a rearrangement of the input; and when the comparator is a consistent comparator for
  the elements (\<open>consistent\<close>, the conditions of the standard), an element that
  compares before another is placed before it, and elements that compare equal keep
  their original order. For a comparator that is not consistent the order is left to
  the implementation.
\<close>

definition sortCompare :: "('a \<Rightarrow> 'a \<Rightarrow> jsnum) \<Rightarrow> 'a \<Rightarrow> 'a \<Rightarrow> jsnum" where
  "sortCompare comparefn x y = (case comparefn x y of NaN \<Rightarrow> Num 0 | v \<Rightarrow> v)"

definition comparesAfter :: "('a \<Rightarrow> 'a \<Rightarrow> jsnum) \<Rightarrow> 'a \<Rightarrow> 'a \<Rightarrow> bool" where
  "comparesAfter comparefn x y = js_gt (sortCompare comparefn x y) (Num 0)"

definition comparesBefore :: "('a \<Rightarrow> 'a \<Rightarrow> jsnum) \<Rightarrow> 'a \<Rightarrow> 'a \<Rightarrow> bool" where
  "comparesBefore comparefn x y = js_gt (Num 0) (sortCompare comparefn x y)"

definition comparesEqual :: "('a \<Rightarrow> 'a \<Rightarrow> jsnum) \<Rightarrow> 'a \<Rightarrow> 'a \<Rightarrow> bool" where
  "comparesEqual comparefn x y =
     (\<not> comparesAfter comparefn x y \<and> \<not> comparesBefore comparefn x y)"

definition consistent :: "('a \<Rightarrow> 'a \<Rightarrow> jsnum) \<Rightarrow> 'a set \<Rightarrow> bool" where
  "consistent comparefn S =
     ((\<forall>a\<in>S. \<forall>b\<in>S. comparefn a b \<noteq> NaN) \<and>
      (\<forall>a\<in>S. comparesEqual comparefn a a) \<and>
      (\<forall>a\<in>S. \<forall>b\<in>S. comparesEqual comparefn a b \<longrightarrow> comparesEqual comparefn b a) \<and>
      (\<forall>a\<in>S. \<forall>b\<in>S. \<forall>c\<in>S.
         comparesEqual comparefn a b \<and> comparesEqual comparefn b c \<longrightarrow>
         comparesEqual comparefn a c) \<and>
      (\<forall>a\<in>S. \<forall>b\<in>S. \<forall>c\<in>S.
         comparesBefore comparefn a b \<and> comparesBefore comparefn b c \<longrightarrow>
         comparesBefore comparefn a c) \<and>
      (\<forall>a\<in>S. \<forall>b\<in>S. \<forall>c\<in>S.
         comparesAfter comparefn a b \<and> comparesAfter comparefn b c \<longrightarrow>
         comparesAfter comparefn a c))"

definition sortContract :: "(('a \<Rightarrow> 'a \<Rightarrow> jsnum) \<Rightarrow> 'a list \<Rightarrow> 'a list) \<Rightarrow> bool" where
  "sortContract srt =
     (\<forall>comparefn xs.
        mset (srt comparefn xs) = mset xs \<and>
        (consistent comparefn (set xs) \<longrightarrow>
           sorted_wrt (\<lambda>x y. \<not> comparesBefore comparefn y x) (srt comparefn xs) \<and>
           (\<forall>c\<in>set xs. filter (comparesEqual comparefn c) (srt comparefn xs) =
                        filter (comparesEqual comparefn c) xs)))"

text \<open>An entry of the list that \<^verbatim>\<open>similaritySearch\<close> sorts.\<close>

record similarity =
  index :: nat
  score :: jsnum

section \<open>The environment and the observable trace\<close>

text \<open>
  The service talks to one HTTP endpoint through \<^verbatim>\<open>fetch\<close>. A call either rejects
  (the promise throws), answers with a non-success status, or answers with a body.
  The endpoint is an input of every operation: its answer may depend on the moment of
  the call (the number of effects performed so far) and on the request.
  Every network call and every \<^verbatim>\<open>sleep\<close> is appended to a trace, so that
  "how many discovery calls" and "was generate invoked" are properties of the trace.
  The environment of an operation is this endpoint together with the runtime's number
  arithmetic and sort. An embedding in a response body is the list of the values of its
  JSON numbers.
\<close>

datatype tags_response =
    TagsThrows
  | TagsNotOk
  | TagsOk "string list option"

datatype embeddings_response =
    EmbeddingsThrows string
  | EmbeddingsNotOk string
  | EmbeddingsOk "real list"

datatype generate_response =
    GenerateThrows string
  | GenerateNotOk string string
  | GenerateOk string

record environment =
  tags_at :: "nat \<Rightarrow> tags_response"
  embeddings_at :: "nat \<Rightarrow> string \<Rightarrow> string \<Rightarrow> embeddings_response"
  generate_at :: "nat \<Rightarrow> string \<Rightarrow> string \<Rightarrow> generate_response"
  arith :: arithmetic
  sortBy :: "(similarity \<Rightarrow> similarity \<Rightarrow> jsnum) \<Rightarrow> similarity list \<Rightarrow> similarity list"

datatype event =
    TagsCall
  | EmbeddingsCall string string
  | GenerateCall string string
  | SleepCall nat

text \<open>The number of discovery (model-listing) calls in a stretch of the trace.\<close>

definition discoveryCalls :: "event list \<Rightarrow> nat" where
  "discoveryCalls evs = length (filter (\<lambda>e. e = TagsCall) evs)"

datatype js_error = Error string

section \<open>OllamaService (the Model Client)\<close>

text \<open>
  The service of \<^verbatim>\<open>src/unnamed/part_001\<close>, the revision with
  \<^verbatim>\<open>detectAvailableModel\<close>. Its state is the connection flag, the base URL read at
  construction and the model name.
\<close>

record ollama_service =
  isConnected :: bool
  baseUrl :: string
  modelName :: string

record world =
  ollama :: ollama_service
  trace :: "event list"

definition maxRetries :: nat where
  "maxRetries = 3"

definition retryDelay :: nat where
  "retryDelay = 1000"

definition clock :: "world \<Rightarrow> nat" where
  "clock w = length (trace w)"

definition emit :: "event \<Rightarrow> world \<Rightarrow> world" where
  "emit e w = w\<lparr>trace := trace w @ [e]\<rparr>"

text \<open>\<^verbatim>\<open>String.prototype.startsWith\<close> and \<^verbatim>\<open>String.prototype.includes\<close>.\<close>

fun startsWith :: "string \<Rightarrow> string \<Rightarrow> bool" where
  "startsWith s [] = True"
| "startsWith [] (p # ps) = False"
| "startsWith (c # cs) (p # ps) = (c = p \<and> startsWith cs ps)"

fun includes_str :: "string \<Rightarrow> string \<Rightarrow> bool" where
  "includes_str [] sub = (sub = [])"
| "includes_str (c # cs) sub = (startsWith (c # cs) sub \<or> includes_str cs sub)"

text \<open>
  \<^verbatim>\<open>detectAvailableModel\<close>: one \<^verbatim>\<open>GET /api/tags\<close>. Everything thrown inside is
  caught and turned into \<^verbatim>\<open>null\<close>. \<^verbatim>\<open>data.models\<close> may be absent
  (\<open>TagsOk None\<close>); each listed model is represented by its \<^verbatim>\<open>name\<close>.
\<close>

definition isLlama32 :: "string \<Rightarrow> bool" where
  "isLlama32 name = (name = ''llama3.2'' \<or> startsWith name ''llama3.2:'')"

definition isNonVision :: "string \<Rightarrow> bool" where
  "isNonVision name = (\<not> includes_str name ''vision'')"

definition selectModel :: "string list \<Rightarrow> string option" where
  "selectModel models =
     (if length models > 0 then
        (case find isLlama32 models of
           Some llama32 \<Rightarrow> Some ''llama3.2''
         | None \<Rightarrow>
             (case find isNonVision models of
                Some nonVisionModel \<Rightarrow> Some nonVisionModel
              | None \<Rightarrow> None))
      else None)"

definition detectAvailableModel :: "environment \<Rightarrow> world \<Rightarrow> string option \<times> world" where
  "detectAvailableModel ep w =
     (let response = tags_at ep (clock w); w1 = emit TagsCall w in
      case response of
        TagsThrows \<Rightarrow> (None, w1)
      | TagsNotOk \<Rightarrow> (None, w1)
      | TagsOk None \<Rightarrow> (None, w1)
      | TagsOk (Some models) \<Rightarrow> (selectModel models, w1))"

text \<open>
  \<^verbatim>\<open>waitForConnection\<close>: the \<^verbatim>\<open>for (let i = 0; i < retries; i++)\<close> loop, from
  iteration \<open>i\<close>. \<^verbatim>\<open>if (detectedModel)\<close> is a truthiness test (\<open>truthy\<close>):
  \<^verbatim>\<open>null\<close> and the empty string both fail it.
\<close>

definition connectWith :: "string \<Rightarrow> world \<Rightarrow> world" where
  "connectWith m w = w\<lparr>ollama := (ollama w)\<lparr>modelName := m, isConnected := True\<rparr>\<rparr>"

definition backoff :: "nat \<Rightarrow> nat \<Rightarrow> world \<Rightarrow> world" where
  "backoff retries i w = (if i < retries - 1 then emit (SleepCall retryDelay) w else w)"

definition truthy :: "string option \<Rightarrow> string option" where
  "truthy detectedModel =
     (case detectedModel of None \<Rightarrow> None | Some m \<Rightarrow> if m \<noteq> [] then Some m else None)"

function waitForConnection_from :: "environment \<Rightarrow> nat \<Rightarrow> nat \<Rightarrow> world \<Rightarrow> bool \<times> world" where
  "waitForConnection_from ep retries i w =
     (if i < retries then
        (case detectAvailableModel ep w of
           (detectedModel, w1) \<Rightarrow>
             (case truthy detectedModel of
                Some m \<Rightarrow> (True, connectWith m w1)
              | None \<Rightarrow> waitForConnection_from ep retries (Suc i) (backoff retries i w1)))
      else (False, w))"
  by pat_completeness auto
termination
  by (relation "measure (\<lambda>(ep, retries, i, w). retries - i)") auto

declare waitForConnection_from.simps [simp del]

definition waitForConnection :: "environment \<Rightarrow> world \<Rightarrow> bool \<times> world" where
  "waitForConnection ep w = waitForConnection_from ep maxRetries 0 w"

record connection_status =
  isRunning :: bool
  error :: "string option"

definition connectError :: "string \<Rightarrow> string" where
  "connectError url =
     ''Could not connect to Ollama at '' @ url @
     '' after multiple attempts. Please ensure Ollama is running.''"

definition checkConnection :: "environment \<Rightarrow> world \<Rightarrow> connection_status \<times> world" where
  "checkConnection ep w =
     (case waitForConnection ep w of
        (ok, w1) \<Rightarrow>
          if \<not> ok then
            (\<lparr>isRunning = False, error = Some (connectError (baseUrl (ollama w1)))\<rparr>, w1)
          else (\<lparr>isRunning = True, error = None\<rparr>, w1))"

text \<open>
  The guard shared by \<^verbatim>\<open>generate\<close> and \<^verbatim>\<open>getEmbeddings\<close>:
  \<^verbatim>\<open>if (!this.isConnected) { const status = await this.checkConnection();
  if (!status.isRunning) throw new Error(status.error); }\<close>.
  It sits before the \<^verbatim>\<open>try\<close> block, so its error is thrown as it is.
\<close>

definition errorText :: "string option \<Rightarrow> string" where
  "errorText e = (case e of None \<Rightarrow> [] | Some msg \<Rightarrow> msg)"

definition ensureConnected :: "environment \<Rightarrow> world \<Rightarrow> js_error option \<times> world" where
  "ensureConnected ep w =
     (if \<not> isConnected (ollama w) then
        (case checkConnection ep w of
           (status, w1) \<Rightarrow>
             if \<not> isRunning status then (Some (Error (errorText (error status))), w1)
             else (None, w1))
      else (None, w))"

definition generate :: "environment \<Rightarrow> string \<Rightarrow> world \<Rightarrow> (js_error + string) \<times> world" where
  "generate ep prompt w =
     (case ensureConnected ep w of
        (Some e, w1) \<Rightarrow> (Inl e, w1)
      | (None, w1) \<Rightarrow>
          (let response = generate_at ep (clock w1) (modelName (ollama w1)) prompt;
               w2 = emit (GenerateCall (modelName (ollama w1)) prompt) w1 in
           case response of
             GenerateThrows msg \<Rightarrow>
               (Inl (Error (''Failed to generate response: '' @ msg)), w2)
           | GenerateNotOk statusText body \<Rightarrow>
               (Inl (Error (''Failed to generate response: '' @
                  ''Ollama API error: '' @ statusText @ ''. '' @ body)), w2)
           | GenerateOk answer \<Rightarrow> (Inr answer, w2)))"

text \<open>An embeddings call fails when the fetch throws or the status is not a success.\<close>

definition embeddingFailed :: "embeddings_response \<Rightarrow> bool" where
  "embeddingFailed r = (case r of EmbeddingsOk v \<Rightarrow> False | _ \<Rightarrow> True)"

text \<open>
  The body of the \<^verbatim>\<open>for (const text of texts)\<close> loop of \<^verbatim>\<open>getEmbeddings\<close>:
  one \<^verbatim>\<open>POST /api/embeddings\<close> per text, the vector pushed on success, a throw on
  the first failure.
\<close>

fun embeddings_loop ::
  "environment \<Rightarrow> string list \<Rightarrow> real list list \<Rightarrow> world \<Rightarrow> (js_error + real list list) \<times> world" where
  "embeddings_loop ep [] embeddings w = (Inr embeddings, w)"
| "embeddings_loop ep (text # rest) embeddings w =
     (let response = embeddings_at ep (clock w) (modelName (ollama w)) text;
          w1 = emit (EmbeddingsCall (modelName (ollama w)) text) w in
      case response of
        EmbeddingsThrows msg \<Rightarrow> (Inl (Error msg), w1)
      | EmbeddingsNotOk statusText \<Rightarrow>
          (Inl (Error (''Failed to get embeddings: '' @ statusText)), w1)
      | EmbeddingsOk embedding \<Rightarrow> embeddings_loop ep rest (embeddings @ [embedding]) w1)"

definition getEmbeddings ::
  "environment \<Rightarrow> string list \<Rightarrow> world \<Rightarrow> (js_error + real list list) \<times> world" where
  "getEmbeddings ep texts w =
     (case ensureConnected ep w of
        (Some e, w1) \<Rightarrow> (Inl e, w1)
      | (None, w1) \<Rightarrow>
          (case embeddings_loop ep texts [] w1 of
             (Inl (Error msg), w2) \<Rightarrow>
               (Inl (Error (''Failed to generate embeddings: '' @ msg)), w2)
           | (Inr embeddings, w2) \<Rightarrow> (Inr embeddings, w2)))"

section \<open>SimpleVectorStore (Document Store and Retriever)\<close>

record stored_document =
  pageContent :: string
  embedding :: "real list"

record simple_vector_store =
  documents :: "stored_document list"
  isInitialized :: bool

definition initialize ::
  "environment \<Rightarrow> simple_vector_store \<Rightarrow> world \<Rightarrow> (js_error + unit) \<times> simple_vector_store \<times> world" where
  "initialize ep st w =
     (if isInitialized st then (Inr (), st, w)
      else
        (case checkConnection ep w of
           (status, w1) \<Rightarrow>
             if \<not> isRunning status then
               (Inl (Error (case error status of
                              Some msg \<Rightarrow> if msg \<noteq> [] then msg
                                          else ''Failed to connect to Ollama service''
                            | None \<Rightarrow> ''Failed to connect to Ollama service'')), st, w1)
             else (Inr (), st\<lparr>isInitialized := True\<rparr>, w1)))"

definition ensureInitialized ::
  "environment \<Rightarrow> simple_vector_store \<Rightarrow> world \<Rightarrow> (js_error + unit) \<times> simple_vector_store \<times> world" where
  "ensureInitialized ep st w =
     (if \<not> isInitialized st then initialize ep st w else (Inr (), st, w))"

text \<open>
  \<^verbatim>\<open>addDocuments\<close>: the texts are embedded in one \<^verbatim>\<open>getEmbeddings\<close> call and the
  pairs pushed in input order; \<^verbatim>\<open>embeddings[i]\<close> exists for every \<open>i\<close> because
  \<^verbatim>\<open>getEmbeddings\<close> returns one vector per text. The \<^verbatim>\<open>catch\<close> rethrows.
\<close>

definition addDocuments ::
  "environment \<Rightarrow> string list \<Rightarrow> simple_vector_store \<Rightarrow> world \<Rightarrow>
     (js_error + unit) \<times> simple_vector_store \<times> world" where
  "addDocuments ep docs st w =
     (case ensureInitialized ep st w of
        (Inl e, st1, w1) \<Rightarrow> (Inl e, st1, w1)
      | (Inr u, st1, w1) \<Rightarrow>
          (case getEmbeddings ep docs w1 of
             (Inl e, w2) \<Rightarrow> (Inl e, st1, w2)
           | (Inr embeddings, w2) \<Rightarrow>
               (Inr (),
                st1\<lparr>documents := documents st1 @
                  map (\<lambda>(doc, e). \<lparr>pageContent = doc, embedding = e\<rparr>) (zip docs embeddings)\<rparr>,
                w2)))"

text \<open>
  \<^verbatim>\<open>cosineSimilarity\<close>, over the arithmetic \<open>ar\<close>.
  \<^verbatim>\<open>a.reduce((sum, val, i) => sum + val * b[i], 0)\<close> reads \<^verbatim>\<open>b[i]\<close> for every
  index of \<open>a\<close>; beyond the end of \<open>b\<close> that is \<^verbatim>\<open>undefined\<close>, and the product
  is \<open>NaN\<close>. There is no test of the denominator and none of the lengths.
\<close>

definition elementAt :: "real list \<Rightarrow> nat \<Rightarrow> jsnum" where
  "elementAt b i = (if i < length b then Num (b ! i) else NaN)"

definition dotProduct :: "arithmetic \<Rightarrow> real list \<Rightarrow> real list \<Rightarrow> jsnum" where
  "dotProduct ar a b =
     fold (\<lambda>(val, i) sum. fadd ar sum (fmul ar (Num val) (elementAt b i)))
          (zip a [0..<length a]) (Num 0)"

definition sumOfSquares :: "arithmetic \<Rightarrow> real list \<Rightarrow> jsnum" where
  "sumOfSquares ar a = fold (\<lambda>val sum. fadd ar sum (fmul ar (Num val) (Num val))) a (Num 0)"

definition magnitude :: "arithmetic \<Rightarrow> real list \<Rightarrow> jsnum" where
  "magnitude ar a = fsqrt ar (sumOfSquares ar a)"

definition cosineSimilarity :: "arithmetic \<Rightarrow> real list \<Rightarrow> real list \<Rightarrow> jsnum" where
  "cosineSimilarity ar a b =
     fdiv ar (dotProduct ar a b) (fmul ar (magnitude ar a) (magnitude ar b))"



text \<open>
  The scored positions, the comparator \<^verbatim>\<open>(a, b) => b.score - a.score\<close>, and
  \<^verbatim>\<open>.sort(...).slice(0, k)\<close> with the runtime's sort.
\<close>

definition similarities :: "arithmetic \<Rightarrow> real list \<Rightarrow> stored_document list \<Rightarrow> similarity list" where
  "similarities ar queryEmbedding docs =
     map (\<lambda>(doc, i). \<lparr>index = i, score = cosineSimilarity ar queryEmbedding (embedding doc)\<rparr>)
         (zip docs [0..<length docs])"

definition byScoreDescending :: "arithmetic \<Rightarrow> similarity \<Rightarrow> similarity \<Rightarrow> jsnum" where
  "byScoreDescending ar a b = fsub ar (score b) (score a)"

definition topK :: "environment \<Rightarrow> real list \<Rightarrow> nat \<Rightarrow> stored_document list \<Rightarrow> similarity list" where
  "topK ep queryEmbedding k docs =
     take k (sortBy ep (byScoreDescending (arith ep))
                       (similarities (arith ep) queryEmbedding docs))"

text \<open>
  The order of a stable descending sort by score, on the positions of the store: a
  higher score first, equal scores in insertion order.
\<close>

definition ranksBefore :: "(nat \<Rightarrow> jsnum) \<Rightarrow> nat \<Rightarrow> nat \<Rightarrow> bool" where
  "ranksBefore scoreOf i j =
     (js_gt (scoreOf i) (scoreOf j) \<or> (scoreOf i = scoreOf j \<and> i < j))"

definition scoreAt :: "arithmetic \<Rightarrow> real list \<Rightarrow> stored_document list \<Rightarrow> nat \<Rightarrow> jsnum" where
  "scoreAt ar queryEmbedding docs i =
     cosineSimilarity ar queryEmbedding (embedding (docs ! i))"

text \<open>
  \<^verbatim>\<open>similaritySearch(query, k)\<close>; \<open>k\<close> is a count of results (the callers pass
  the default 3), so \<^verbatim>\<open>slice(0, k)\<close> is \<open>take k\<close>. The initialisation guard is
  outside the \<^verbatim>\<open>try\<close>; whatever is thrown inside is caught and answered with
  \<^verbatim>\<open>[]\<close>. A \<^verbatim>\<open>Document\<close> carries only its \<^verbatim>\<open>pageContent\<close>.
\<close>

definition similaritySearch ::
  "environment \<Rightarrow> string \<Rightarrow> nat \<Rightarrow> simple_vector_store \<Rightarrow> world \<Rightarrow>
     (js_error + string list) \<times> simple_vector_store \<times> world" where
  "similaritySearch ep query k st w =
     (case ensureInitialized ep st w of
        (Inl e, st1, w1) \<Rightarrow> (Inl e, st1, w1)
      | (Inr u, st1, w1) \<Rightarrow>
          if length (documents st1) = 0 then (Inr [], st1, w1)
          else
            (case getEmbeddings ep [query] w1 of
               (Inl e, w2) \<Rightarrow> (Inr [], st1, w2)
             | (Inr [], w2) \<Rightarrow> (Inr [], st1, w2)
             | (Inr (queryEmbedding # others), w2) \<Rightarrow>
                 (Inr (map (\<lambda>s. pageContent (documents st1 ! index s))
                           (topK ep queryEmbedding k (documents st1))), st1, w2)))"

text \<open>The module-level singleton and the exported functions of \<^verbatim>\<open>vector-store.ts\<close>.\<close>

record app =
  vectorStore :: "simple_vector_store option"
  routeInitialized :: bool
  sys :: world

definition newStore :: simple_vector_store where
  "newStore = \<lparr>documents = [], isInitialized = False\<rparr>"

definition initializeVectorStore ::
  "environment \<Rightarrow> app \<Rightarrow> (js_error + simple_vector_store) \<times> app" where
  "initializeVectorStore ep s =
     (case vectorStore s of
        None \<Rightarrow>
          (case initialize ep newStore (sys s) of
             (Inl e, st1, w1) \<Rightarrow> (Inl e, s\<lparr>vectorStore := Some st1, sys := w1\<rparr>)
           | (Inr u, st1, w1) \<Rightarrow> (Inr st1, s\<lparr>vectorStore := Some st1, sys := w1\<rparr>))
      | Some st \<Rightarrow> (Inr st, s))"

definition addDocumentsToStore :: "environment \<Rightarrow> string list \<Rightarrow> app \<Rightarrow> (js_error + unit) \<times> app" where
  "addDocumentsToStore ep chunks s =
     (case initializeVectorStore ep s of
        (Inl e, s1) \<Rightarrow> (Inl e, s1)
      | (Inr st, s1) \<Rightarrow>
          (case addDocuments ep chunks st (sys s1) of
             (r, st1, w1) \<Rightarrow> (r, s1\<lparr>vectorStore := Some st1, sys := w1\<rparr>)))"

definition searchSimilarChunks ::
  "environment \<Rightarrow> string \<Rightarrow> nat \<Rightarrow> app \<Rightarrow> (js_error + string list) \<times> app" where
  "searchSimilarChunks ep query k s =
     (case initializeVectorStore ep s of
        (Inl e, s1) \<Rightarrow> (Inl e, s1)
      | (Inr st, s1) \<Rightarrow>
          (case similaritySearch ep query k st (sys s1) of
             (r, st1, w1) \<Rightarrow> (r, s1\<lparr>vectorStore := Some st1, sys := w1\<rparr>)))"

text \<open>
  A step from \<open>w\<close> to \<open>w'\<close> is quiet when it only appends events other than generate
  requests to the trace and does not disconnect the service.
\<close>

definition quiet :: "world \<Rightarrow> world \<Rightarrow> bool" where
  "quiet w w' =
     ((isConnected (ollama w) \<longrightarrow> isConnected (ollama w')) \<and>
      (\<exists>new. trace w' = trace w @ new \<and> (\<forall>m p. GenerateCall m p \<notin> set new)))"

section \<open>The chat route (Orchestrator)\<close>

record chat_message =
  role :: string
  content :: string

text \<open>
  The parsed request body. \<^verbatim>\<open>message\<close> may be missing; \<^verbatim>\<open>!message\<close> holds for a
  missing and for an empty message. \<^verbatim>\<open>history\<close> is the array the interface
  prescribes.
\<close>

record request =
  message :: "string option"
  history :: "chat_message list"
  isPDFMode :: bool
  chunks :: "string list option"

datatype response =
    ErrorResponse nat "string option"
  | ChatResponse string "string list"
  | SuccessResponse

definition nl :: string where
  "nl = [CHR 0x0A]"

fun joinWith :: "string \<Rightarrow> string list \<Rightarrow> string" where
  "joinWith sep [] = []"
| "joinWith sep [x] = x"
| "joinWith sep (x # y # ys) = x @ sep @ joinWith sep (y # ys)"

definition historyText :: "chat_message list \<Rightarrow> string" where
  "historyText h = joinWith nl (map (\<lambda>msg. role msg @ '': '' @ content msg) h)"

definition promptTail :: "chat_message list \<Rightarrow> string \<Rightarrow> string" where
  "promptTail h msg =
     ''Chat History:'' @ nl @ historyText h @ nl @ nl @ ''User: '' @ msg @ nl @ ''Assistant:''"

definition promptWithoutContext :: "chat_message list \<Rightarrow> string \<Rightarrow> string" where
  "promptWithoutContext h msg =
     ''You are a helpful AI assistant. Answer the user'' @ [CHR 0x27] @
     ''s question to the best of your ability.'' @ nl @ nl @ promptTail h msg"

definition promptWithContext :: "string list \<Rightarrow> chat_message list \<Rightarrow> string \<Rightarrow> string" where
  "promptWithContext contextChunks h msg =
     ''You are a helpful AI assistant. Use the following context to answer the user'' @
     [CHR 0x27] @ ''s question. If you cannot find the answer in the context, say so.'' @
     nl @ nl @ ''Context:'' @ nl @ joinWith (nl @ nl) contextChunks @ nl @ nl @ promptTail h msg"

definition promptWithPDFContext :: "string list \<Rightarrow> chat_message list \<Rightarrow> string \<Rightarrow> string" where
  "promptWithPDFContext contextChunks h msg =
     ''You are a helpful AI assistant. Use the following context from the PDF document '' @
     ''to answer the user'' @ [CHR 0x27] @
     ''s question. If you cannot find the answer in the context, say so.'' @
     nl @ nl @ ''Context from PDF:'' @ nl @ joinWith (nl @ nl) contextChunks @ nl @ nl @
     promptTail h msg"

text \<open>
  \<^verbatim>\<open>POST\<close> of \<^verbatim>\<open>src/app/api/chat/route.ts\<close>. The request carries no mode: retrieval
  is always tried, its error is caught with the comment "If no documents in store, just
  continue without context", and \<^verbatim>\<open>generate\<close> is called with one of the two prompts.
  \<^verbatim>\<open>formatError\<close> comes from \<^verbatim>\<open>@/lib/utils\<close>, which is not part of the sources,
  and is a parameter. Every error that reaches the outer \<^verbatim>\<open>catch\<close> is a
  \<^verbatim>\<open>new Error(message)\<close> without a \<^verbatim>\<open>code\<close>, so the status there is 500.
\<close>

definition POST ::
  "(js_error \<Rightarrow> string) \<Rightarrow> environment \<Rightarrow> request \<Rightarrow> app \<Rightarrow> response \<times> app" where
  "POST formatError ep req s =
     (case checkConnection ep (sys s) of
        (status, w1) \<Rightarrow>
          if \<not> isRunning status then (ErrorResponse 503 (error status), s\<lparr>sys := w1\<rparr>)
          else
            (case message req of
               None \<Rightarrow> (ErrorResponse 400 (Some ''Message is required''), s\<lparr>sys := w1\<rparr>)
             | Some msg \<Rightarrow>
                 if msg = [] then
                   (ErrorResponse 400 (Some ''Message is required''), s\<lparr>sys := w1\<rparr>)
                 else
                   (case searchSimilarChunks ep msg 3 (s\<lparr>sys := w1\<rparr>) of
                      (found, s2) \<Rightarrow>
                        (let contextChunks = (case found of Inl e \<Rightarrow> [] | Inr cs \<Rightarrow> cs);
                             prompt =
                               (if length contextChunks > 0
                                then promptWithContext contextChunks (history req) msg
                                else promptWithoutContext (history req) msg)
                         in case generate ep prompt (sys s2) of
                              (Inl e, w3) \<Rightarrow>
                                (ErrorResponse 500 (Some (formatError e)), s2\<lparr>sys := w3\<rparr>)
                            | (Inr answer, w3) \<Rightarrow>
                                (ChatResponse answer contextChunks, s2\<lparr>sys := w3\<rparr>)))))"

text \<open>
  The mode-aware \<^verbatim>\<open>POST\<close> of the chat route (the second document of
  \<^verbatim>\<open>src/app/page.tsx\<close>): it ingests \<^verbatim>\<open>chunks\<close>, and in PDF mode answers 404
  when retrieval finds nothing.
\<close>

definition ensureVectorStore :: "environment \<Rightarrow> app \<Rightarrow> js_error option \<times> app" where
  "ensureVectorStore ep s =
     (if \<not> routeInitialized s then
        (case initializeVectorStore ep s of
           (Inl e, s1) \<Rightarrow> (Some e, s1)
         | (Inr st, s1) \<Rightarrow> (None, s1\<lparr>routeInitialized := True\<rparr>))
      else (None, s))"

definition templated :: "string option \<Rightarrow> string" where
  "templated v = (case v of None \<Rightarrow> ''undefined'' | Some x \<Rightarrow> x)"

definition errorMessage :: "js_error \<Rightarrow> string" where
  "errorMessage e = (case e of Error msg \<Rightarrow> msg)"

definition respond ::
  "environment \<Rightarrow> string \<Rightarrow> string list \<Rightarrow> app \<Rightarrow> response \<times> app" where
  "respond ep prompt contextChunks s =
     (case generate ep prompt (sys s) of
        (Inl e, w1) \<Rightarrow>
          (ErrorResponse 500 (Some (''Failed to generate response: '' @ errorMessage e)),
           s\<lparr>sys := w1\<rparr>)
      | (Inr answer, w1) \<Rightarrow> (ChatResponse answer contextChunks, s\<lparr>sys := w1\<rparr>))"

definition retrieveFailed :: response where
  "retrieveFailed =
     ErrorResponse 500
       (Some ''Failed to retrieve context from PDF. Please try uploading the PDF again.'')"

definition noRelevantInformation :: response where
  "noRelevantInformation =
     ErrorResponse 404
       (Some ''No relevant information found in the PDF. Please try uploading the PDF again.'')"

definition POST_modes ::
  "(js_error \<Rightarrow> string) \<Rightarrow> environment \<Rightarrow> request \<Rightarrow> app \<Rightarrow> response \<times> app" where
  "POST_modes formatError ep req s =
     (case checkConnection ep (sys s) of
        (status, w1) \<Rightarrow>
          if \<not> isRunning status then
            (ErrorResponse 503
               (Some (''Ollama service not available: '' @ templated (error status))),
             s\<lparr>sys := w1\<rparr>)
          else if (case chunks req of None \<Rightarrow> False | Some cs \<Rightarrow> length cs > 0) then
            (case ensureVectorStore ep (s\<lparr>sys := w1\<rparr>) of
               (Some e, s1) \<Rightarrow> (ErrorResponse 500 (Some (formatError e)), s1)
             | (None, s1) \<Rightarrow>
                 (case addDocumentsToStore ep (case chunks req of None \<Rightarrow> [] | Some cs \<Rightarrow> cs) s1 of
                    (Inl e, s2) \<Rightarrow> (ErrorResponse 500 (Some (formatError e)), s2)
                  | (Inr u, s2) \<Rightarrow> (SuccessResponse, s2)))
          else
            (case message req of
               None \<Rightarrow> (ErrorResponse 400 (Some ''Message is required''), s\<lparr>sys := w1\<rparr>)
             | Some msg \<Rightarrow>
                 if msg = [] then
                   (ErrorResponse 400 (Some ''Message is required''), s\<lparr>sys := w1\<rparr>)
                 else if isPDFMode req then
                   (case ensureVectorStore ep (s\<lparr>sys := w1\<rparr>) of
                      (Some e, s1) \<Rightarrow> (retrieveFailed, s1)
                    | (None, s1) \<Rightarrow>
                        (case searchSimilarChunks ep msg 3 s1 of
                           (Inl e, s2) \<Rightarrow> (retrieveFailed, s2)
                         | (Inr contextChunks, s2) \<Rightarrow>
                             if length contextChunks = 0 then (noRelevantInformation, s2)
                             else respond ep
                                    (promptWithPDFContext contextChunks (history req) msg)
                                    contextChunks s2))
                 else
                   respond ep (promptWithoutContext (history req) msg) [] (s\<lparr>sys := w1\<rparr>)))"

section \<open>Concrete scenarios\<close>

text \<open>
  A runtime to instantiate the theorems at: arithmetic that is exact on values, and
  stable insertion sort. Both meet the laws above (\<open>ieee\<close>, \<open>sortContract\<close>). Exact
  arithmetic gives the result of double arithmetic wherever that is exact, as on the
  vectors with entries 0, 1 and 2 used below.
\<close>

fun exact_neg :: "jsnum \<Rightarrow> jsnum" where
  "exact_neg (Num x) = Num (- x)"
| "exact_neg PosInf = NegInf"
| "exact_neg NegInf = PosInf"
| "exact_neg NaN = NaN"

fun exact_add :: "jsnum \<Rightarrow> jsnum \<Rightarrow> jsnum" where
  "exact_add (Num x) (Num y) = Num (x + y)"
| "exact_add NaN v = NaN"
| "exact_add v NaN = NaN"
| "exact_add PosInf NegInf = NaN"
| "exact_add NegInf PosInf = NaN"
| "exact_add PosInf v = PosInf"
| "exact_add NegInf v = NegInf"
| "exact_add (Num x) v = v"

definition exact_sub :: "jsnum \<Rightarrow> jsnum \<Rightarrow> jsnum" where
  "exact_sub u v = exact_add u (exact_neg v)"

definition signed_inf :: "bool \<Rightarrow> jsnum" where
  "signed_inf positive = (if positive then PosInf else NegInf)"

fun exact_mul :: "jsnum \<Rightarrow> jsnum \<Rightarrow> jsnum" where
  "exact_mul (Num x) (Num y) = Num (x * y)"
| "exact_mul NaN v = NaN"
| "exact_mul v NaN = NaN"
| "exact_mul (Num x) PosInf = (if x = 0 then NaN else signed_inf (0 < x))"
| "exact_mul (Num x) NegInf = (if x = 0 then NaN else signed_inf (x < 0))"
| "exact_mul PosInf (Num y) = (if y = 0 then NaN else signed_inf (0 < y))"
| "exact_mul NegInf (Num y) = (if y = 0 then NaN else signed_inf (y < 0))"
| "exact_mul PosInf PosInf = PosInf"
| "exact_mul NegInf NegInf = PosInf"
| "exact_mul PosInf NegInf = NegInf"
| "exact_mul NegInf PosInf = NegInf"

fun exact_div :: "jsnum \<Rightarrow> jsnum \<Rightarrow> jsnum" where
  "exact_div (Num x) (Num y) =
     (if y = 0 then (if x = 0 then NaN else signed_inf (0 < x)) else Num (x / y))"
| "exact_div NaN v = NaN"
| "exact_div v NaN = NaN"
| "exact_div (Num x) PosInf = Num 0"
| "exact_div (Num x) NegInf = Num 0"
| "exact_div PosInf (Num y) = signed_inf (0 \<le> y)"
| "exact_div NegInf (Num y) = signed_inf (y < 0)"
| "exact_div PosInf v = NaN"
| "exact_div NegInf v = NaN"

fun exact_sqrt :: "jsnum \<Rightarrow> jsnum" where
  "exact_sqrt (Num x) = (if x < 0 then NaN else Num (sqrt x))"
| "exact_sqrt PosInf = PosInf"
| "exact_sqrt NegInf = NaN"
| "exact_sqrt NaN = NaN"

definition exactArithmetic :: arithmetic where
  "exactArithmetic =
     \<lparr>fadd = exact_add, fsub = exact_sub, fmul = exact_mul, fdiv = exact_div,
      fsqrt = exact_sqrt\<rparr>"

fun sort_insert :: "('a \<Rightarrow> 'a \<Rightarrow> jsnum) \<Rightarrow> 'a \<Rightarrow> 'a list \<Rightarrow> 'a list" where
  "sort_insert comparefn x [] = [x]"
| "sort_insert comparefn x (y # ys) =
     (if comparesAfter comparefn x y then y # sort_insert comparefn x ys
      else x # y # ys)"

definition stableSort :: "('a \<Rightarrow> 'a \<Rightarrow> jsnum) \<Rightarrow> 'a list \<Rightarrow> 'a list" where
  "stableSort comparefn xs = foldr (sort_insert comparefn) xs []"

text \<open>Endpoints, states and requests at which the theorems below are instantiated.\<close>

definition deadEndpoint :: environment where
  "deadEndpoint =
     \<lparr>tags_at = (\<lambda>t. TagsThrows),
      embeddings_at = (\<lambda>t m p. EmbeddingsThrows ''fetch failed''),
      generate_at = (\<lambda>t m p. GenerateThrows ''fetch failed''),
      arith = exactArithmetic, sortBy = stableSort\<rparr>"

definition freshWorld :: world where
  "freshWorld =
     \<lparr>ollama = \<lparr>isConnected = False, baseUrl = ''http://127.0.0.1:11434'',
                 modelName = ''llama3.2''\<rparr>,
      trace = []\<rparr>"

definition liveEndpoint :: environment where
  "liveEndpoint =
     \<lparr>tags_at = (\<lambda>t. TagsOk (Some [''llava-vision'', ''llama3.2:latest''])),
      embeddings_at = (\<lambda>t m p. if p = ''bad'' then EmbeddingsNotOk ''Internal Server Error''
                                else EmbeddingsOk [1, 0]),
      generate_at = (\<lambda>t m p. GenerateOk ''an answer''),
      arith = exactArithmetic, sortBy = stableSort\<rparr>"

definition connectedWorld :: world where
  "connectedWorld =
     \<lparr>ollama = \<lparr>isConnected = True, baseUrl = ''http://127.0.0.1:11434'',
                 modelName = ''llama3.2''\<rparr>,
      trace = [TagsCall]\<rparr>"

definition taggedEndpoint :: environment where
  "taggedEndpoint =
     \<lparr>tags_at = (\<lambda>t. TagsOk (Some [''mistral'', ''llama3.2:1b''])),
      embeddings_at = (\<lambda>t m p. EmbeddingsOk [1, 0]),
      generate_at = (\<lambda>t m p. GenerateOk ''an answer''),
      arith = exactArithmetic, sortBy = stableSort\<rparr>"

definition fallbackEndpoint :: environment where
  "fallbackEndpoint =
     \<lparr>tags_at = (\<lambda>t. TagsOk (Some [''llava-vision'', ''mistral'', ''phi3''])),
      embeddings_at = (\<lambda>t m p. EmbeddingsOk [1, 0]),
      generate_at = (\<lambda>t m p. GenerateOk ''an answer''),
      arith = exactArithmetic, sortBy = stableSort\<rparr>"

definition nanStore :: simple_vector_store where
  "nanStore =
     \<lparr>documents =
        [\<lparr>pageContent = ''orthogonal'', embedding = [0, 1]\<rparr>,
         \<lparr>pageContent = ''blank'', embedding = [0, 0]\<rparr>,
         \<lparr>pageContent = ''aligned'', embedding = [1, 0]\<rparr>],
      isInitialized = True\<rparr>"

definition rankedStore :: simple_vector_store where
  "rankedStore =
     \<lparr>documents =
        [\<lparr>pageContent = ''first'', embedding = [0, 1]\<rparr>,
         \<lparr>pageContent = ''second'', embedding = [1, 0]\<rparr>,
         \<lparr>pageContent = ''third'', embedding = [2, 0]\<rparr>],
      isInitialized = True\<rparr>"

definition flakyEndpoint :: environment where
  "flakyEndpoint =
     \<lparr>tags_at = (\<lambda>t. if t = 0 then TagsOk (Some [''llama3.2'']) else TagsThrows),
      embeddings_at = (\<lambda>t m p. EmbeddingsOk [1, 0]),
      generate_at = (\<lambda>t m p. GenerateOk ''an answer''),
      arith = exactArithmetic, sortBy = stableSort\<rparr>"

definition freshApp :: app where
  "freshApp = \<lparr>vectorStore = None, routeInitialized = False, sys = freshWorld\<rparr>"

definition loadedApp :: app where
  "loadedApp = \<lparr>vectorStore = Some nanStore, routeInitialized = True, sys = connectedWorld\<rparr>"

definition helloRequest :: request where
  "helloRequest = \<lparr>message = Some ''hello'', history = [], isPDFMode = True, chunks = None\<rparr>"

definition badRequest :: request where
  "badRequest = \<lparr>message = Some ''bad'', history = [], isPDFMode = True, chunks = None\<rparr>"

definition liveWorld :: "event list \<Rightarrow> world" where
  "liveWorld evs =
     \<lparr>ollama = \<lparr>isConnected = True, baseUrl = ''http://127.0.0.1:11434'',
                 modelName = ''llama3.2''\<rparr>,
      trace = evs\<rparr>"

definition readyStore :: simple_vector_store where
  "readyStore = \<lparr>documents = [], isInitialized = True\<rparr>"

section \<open>Connection checks\<close>

lemma detect_fails:
  "tags_at ep (clock w) = TagsThrows \<or> tags_at ep (clock w) = TagsNotOk \<Longrightarrow>
   detectAvailableModel ep w = (None, emit TagsCall w)"
  by (auto simp: detectAvailableModel_def Let_def)

text \<open>
  C4. When every discovery call fails (the fetch throws or answers with a non-success
  status), \<^verbatim>\<open>checkConnection\<close> performs exactly three discovery calls with a wait
  of 1000 ms between consecutive ones (two waits), raises nothing, and returns the status
  \<open>isRunning = False\<close> with the descriptive connection message.
\<close>

theorem checkConnection_retry_bound:
  assumes "\<forall>t. tags_at ep t = TagsThrows \<or> tags_at ep t = TagsNotOk"
  shows "checkConnection ep w =
    (\<lparr>isRunning = False, error = Some (connectError (baseUrl (ollama w)))\<rparr>,
     w\<lparr>trace := trace w @
          [TagsCall, SleepCall retryDelay, TagsCall, SleepCall retryDelay, TagsCall]\<rparr>) \<and>
    discoveryCalls [TagsCall, SleepCall retryDelay, TagsCall, SleepCall retryDelay, TagsCall] =
      maxRetries \<and>
    retryDelay = 1000"
  using assms
  by (simp add: checkConnection_def waitForConnection_def waitForConnection_from.simps
      detect_fails truthy_def maxRetries_def retryDelay_def backoff_def emit_def
      discoveryCalls_def)

theorem checkConnection_retry_bound_witness:
  "(\<forall>t. tags_at deadEndpoint t = TagsThrows \<or> tags_at deadEndpoint t = TagsNotOk) \<and>
   checkConnection deadEndpoint freshWorld =
    (\<lparr>isRunning = False,
      error = Some (''Could not connect to Ollama at http://127.0.0.1:11434'' @
                    '' after multiple attempts. Please ensure Ollama is running.'')\<rparr>,
     freshWorld\<lparr>trace := [TagsCall, SleepCall 1000, TagsCall, SleepCall 1000, TagsCall]\<rparr>)"
  using checkConnection_retry_bound [of deadEndpoint freshWorld]
  by (simp add: deadEndpoint_def freshWorld_def connectError_def)

lemma detect_trace: "snd (detectAvailableModel ep w) = emit TagsCall w"
  by (auto simp: detectAvailableModel_def Let_def split: tags_response.splits option.splits)

lemma wait_trace:
  "\<exists>new. trace (snd (waitForConnection_from ep retries i w)) = trace w @ new \<and>
         discoveryCalls new \<le> retries - i \<and> (i < retries \<longrightarrow> 1 \<le> discoveryCalls new)"
proof (induction ep retries i w rule: waitForConnection_from.induct)
  case (1 ep retries i w)
  show ?case
  proof (cases "i < retries")
    case False
    then show ?thesis
      by (simp add: waitForConnection_from.simps discoveryCalls_def)
  next
    case True
    obtain r w1 where d: "detectAvailableModel ep w = (r, w1)"
      by (cases "detectAvailableModel ep w")
    have w1: "w1 = emit TagsCall w"
      using detect_trace [of ep w] d by simp
    show ?thesis
    proof (cases "truthy r")
      case (Some m)
      then have "waitForConnection_from ep retries i w = (True, connectWith m w1)"
        using True d by (simp add: waitForConnection_from.simps)
      then show ?thesis
        using True w1
        by (simp add: connectWith_def emit_def discoveryCalls_def)
    next
      case None
      then have step: "waitForConnection_from ep retries i w =
          waitForConnection_from ep retries (Suc i) (backoff retries i w1)"
        using True d by (simp add: waitForConnection_from.simps [of ep retries i w])
      obtain new where new:
        "trace (snd (waitForConnection_from ep retries (Suc i) (backoff retries i w1))) =
           trace (backoff retries i w1) @ new"
        "discoveryCalls new \<le> retries - Suc i"
        using "1.IH" [OF True d [symmetric] None] by blast
      have "\<exists>pre. trace (backoff retries i w1) = trace w @ TagsCall # pre \<and> discoveryCalls pre = 0"
        using w1 by (auto simp: backoff_def emit_def discoveryCalls_def)
      then obtain pre where pre: "trace (backoff retries i w1) = trace w @ TagsCall # pre"
        "discoveryCalls pre = 0" by blast
      have "trace (snd (waitForConnection_from ep retries i w)) = trace w @ (TagsCall # pre @ new)"
        using step new(1) pre(1) by simp
      moreover have "discoveryCalls (TagsCall # pre @ new) \<le> retries - i"
        using new(2) pre(2) True by (simp add: discoveryCalls_def)
      moreover have "1 \<le> discoveryCalls (TagsCall # pre @ new)"
        by (simp add: discoveryCalls_def)
      ultimately show ?thesis by blast
    qed
  qed
qed

lemma checkConnection_trace:
  "\<exists>new. trace (snd (checkConnection ep w)) = trace w @ new \<and>
         1 \<le> discoveryCalls new \<and> discoveryCalls new \<le> maxRetries"
proof -
  obtain new where "trace (snd (waitForConnection_from ep maxRetries 0 w)) = trace w @ new"
    "discoveryCalls new \<le> maxRetries" "1 \<le> discoveryCalls new"
    using wait_trace [of ep maxRetries 0 w] by (auto simp: maxRetries_def)
  then show ?thesis
    by (auto simp: checkConnection_def waitForConnection_def split: prod.splits)
qed

lemma ensureConnected_connected: "isConnected (ollama w) \<Longrightarrow> ensureConnected ep w = (None, w)"
  by (simp add: ensureConnected_def)

text \<open>
  C3 (as amended). \<^verbatim>\<open>checkConnection\<close> has no fast path: every invocation, whatever
  the connection state, issues at least one and at most \<open>maxRetries\<close> discovery calls.
  The fast path belongs to its callers \<^verbatim>\<open>generate\<close> and \<^verbatim>\<open>getEmbeddings\<close>:
  when the service is already connected they skip \<^verbatim>\<open>checkConnection\<close> and issue
  only their own request.
\<close>

theorem checkConnection_always_probes:
  "(\<exists>new. trace (snd (checkConnection ep w)) = trace w @ new \<and>
          1 \<le> discoveryCalls new \<and> discoveryCalls new \<le> maxRetries) \<and>
   (isConnected (ollama w) \<longrightarrow>
      trace (snd (generate ep prompt w)) =
        trace w @ [GenerateCall (modelName (ollama w)) prompt] \<and>
      trace (snd (getEmbeddings ep [text] w)) =
        trace w @ [EmbeddingsCall (modelName (ollama w)) text])"
  using checkConnection_trace [of ep w]
  by (auto simp: generate_def getEmbeddings_def ensureConnected_connected Let_def emit_def
      split: generate_response.splits embeddings_response.splits)

theorem checkConnection_always_probes_witness:
  "isConnected (ollama connectedWorld) \<and>
   trace (snd (generate liveEndpoint ''hello'' connectedWorld)) =
     [TagsCall, GenerateCall ''llama3.2'' ''hello''] \<and>
   trace (snd (getEmbeddings liveEndpoint [''hello''] connectedWorld)) =
     [TagsCall, EmbeddingsCall ''llama3.2'' ''hello'']"
  using checkConnection_always_probes [of liveEndpoint connectedWorld "''hello''" "''hello''"]
  by (simp add: connectedWorld_def)

text \<open>
  C3 as stated fails: right after a successful \<^verbatim>\<open>checkConnection\<close> (one discovery
  call, state connected) a second invocation issues a further discovery call.
\<close>

theorem checkConnection_fast_path_counterexample:
  "isRunning (fst (checkConnection liveEndpoint freshWorld)) \<and>
   isConnected (ollama (snd (checkConnection liveEndpoint freshWorld))) \<and>
   trace (snd (checkConnection liveEndpoint freshWorld)) = [TagsCall] \<and>
   trace (snd (checkConnection liveEndpoint (snd (checkConnection liveEndpoint freshWorld)))) =
     [TagsCall, TagsCall]"
  by (simp add: checkConnection_def waitForConnection_def waitForConnection_from.simps
      detectAvailableModel_def selectModel_def isLlama32_def isNonVision_def truthy_def
      connectWith_def maxRetries_def clock_def emit_def liveEndpoint_def freshWorld_def Let_def)


section \<open>Model discovery\<close>

lemma find_first: "\<forall>x\<in>set xs. \<not> P x \<Longrightarrow> P y \<Longrightarrow> find P (xs @ y # ys) = Some y"
  by (induction xs) auto

lemma find_none: "\<forall>x\<in>set xs. \<not> P x \<Longrightarrow> find P xs = None"
  by (induction xs) auto

lemma find_some: "\<exists>x\<in>set xs. P x \<Longrightarrow> \<exists>y. find P xs = Some y"
  by (induction xs) auto

lemma selectModel_preferred:
  assumes a: "\<exists>n\<in>set models. n = ''llama3.2'' \<or> startsWith n ''llama3.2:''"
  shows "selectModel models = Some ''llama3.2''"
proof -
  from a obtain n where n: "n \<in> set models" and l: "n = ''llama3.2'' \<or> startsWith n ''llama3.2:''" ..
  have "isLlama32 n" using l unfolding isLlama32_def .
  with n have "\<exists>x\<in>set models. isLlama32 x" ..
  then have "\<exists>y. find isLlama32 models = Some y" by (rule find_some)
  then obtain y where "find isLlama32 models = Some y" ..
  moreover have "models \<noteq> []" using n by auto
  ultimately show ?thesis by (simp add: selectModel_def)
qed

lemma selectModel_fallback:
  assumes "\<forall>n\<in>set (pre @ m # post). n \<noteq> ''llama3.2'' \<and> \<not> startsWith n ''llama3.2:''"
    and "\<forall>n\<in>set pre. includes_str n ''vision''" and "\<not> includes_str m ''vision''"
  shows "selectModel (pre @ m # post) = Some m"
proof -
  have "find isLlama32 (pre @ m # post) = None"
    using assms(1) by (intro find_none) (simp add: isLlama32_def)
  moreover have "find isNonVision (pre @ m # post) = Some m"
    using assms(2,3) by (intro find_first) (simp_all add: isNonVision_def)
  ultimately show ?thesis by (simp add: selectModel_def)
qed

lemma selectModel_none:
  assumes "\<forall>n\<in>set models. n \<noteq> ''llama3.2'' \<and> \<not> startsWith n ''llama3.2:'' \<and> includes_str n ''vision''"
  shows "selectModel models = None"
proof -
  have "find isLlama32 models = None"
    using assms by (intro find_none) (simp add: isLlama32_def)
  moreover have "find isNonVision models = None"
    using assms by (intro find_none) (simp add: isNonVision_def)
  ultimately show ?thesis by (simp add: selectModel_def)
qed

lemma checkConnection_selected:
  assumes "tags_at ep (clock w) = TagsOk (Some models)" "selectModel models = Some m" "m \<noteq> []"
  shows "checkConnection ep w =
    (\<lparr>isRunning = True, error = None\<rparr>,
     w\<lparr>ollama := (ollama w)\<lparr>modelName := m, isConnected := True\<rparr>,
       trace := trace w @ [TagsCall]\<rparr>)"
  using assms
  by (simp add: checkConnection_def waitForConnection_def waitForConnection_from.simps
      detectAvailableModel_def truthy_def connectWith_def maxRetries_def emit_def Let_def)

lemma generate_connected_trace:
  "isConnected (ollama w) \<Longrightarrow>
   trace (snd (generate ep prompt w)) = trace w @ [GenerateCall (modelName (ollama w)) prompt]"
  by (auto simp: generate_def ensureConnected_def Let_def emit_def split: generate_response.splits)

lemma getEmbeddings_one_trace:
  "isConnected (ollama w) \<Longrightarrow>
   trace (snd (getEmbeddings ep [text] w)) = trace w @ [EmbeddingsCall (modelName (ollama w)) text]"
  by (auto simp: getEmbeddings_def ensureConnected_def Let_def emit_def split: embeddings_response.splits)

text \<open>
  C8 (as amended). Discovery prefers the fixed name \<^verbatim>\<open>llama3.2\<close> whenever some listed
  name equals \<^verbatim>\<open>llama3.2\<close> or starts with \<^verbatim>\<open>llama3.2:\<close>; otherwise it takes the
  first listed name that does not contain \<^verbatim>\<open>vision\<close>; otherwise it finds none. When
  the selected name is not empty, \<^verbatim>\<open>checkConnection\<close> succeeds, records it as the
  model name, and later generate and embeddings requests carry it.
\<close>

theorem model_selection_order:
  "((\<exists>n\<in>set models1. n = ''llama3.2'' \<or> startsWith n ''llama3.2:'') \<longrightarrow>
      selectModel models1 = Some ''llama3.2'') \<and>
   ((\<forall>n\<in>set (pre @ m # post). n \<noteq> ''llama3.2'' \<and> \<not> startsWith n ''llama3.2:'') \<and>
    (\<forall>n\<in>set pre. includes_str n ''vision'') \<and> \<not> includes_str m ''vision'' \<longrightarrow>
      selectModel (pre @ m # post) = Some m) \<and>
   ((\<forall>n\<in>set models3. n \<noteq> ''llama3.2'' \<and> \<not> startsWith n ''llama3.2:'' \<and>
        includes_str n ''vision'') \<longrightarrow>
      selectModel models3 = None) \<and>
   (tags_at ep (clock w) = TagsOk (Some models) \<and> selectModel models = Some chosen \<and>
    chosen \<noteq> [] \<longrightarrow>
      (let w' = snd (checkConnection ep w) in
       isRunning (fst (checkConnection ep w)) \<and> isConnected (ollama w') \<and>
       modelName (ollama w') = chosen \<and>
       trace (snd (generate ep prompt w')) = trace w' @ [GenerateCall chosen prompt] \<and>
       trace (snd (getEmbeddings ep [text] w')) = trace w' @ [EmbeddingsCall chosen text]))"
proof (intro conjI impI)
  assume "\<exists>n\<in>set models1. n = ''llama3.2'' \<or> startsWith n ''llama3.2:''"
  then show "selectModel models1 = Some ''llama3.2''" by (rule selectModel_preferred)
next
  assume "(\<forall>n\<in>set (pre @ m # post). n \<noteq> ''llama3.2'' \<and> \<not> startsWith n ''llama3.2:'') \<and>
    (\<forall>n\<in>set pre. includes_str n ''vision'') \<and> \<not> includes_str m ''vision''"
  then show "selectModel (pre @ m # post) = Some m" using selectModel_fallback by blast
next
  assume "\<forall>n\<in>set models3. n \<noteq> ''llama3.2'' \<and> \<not> startsWith n ''llama3.2:'' \<and>
        includes_str n ''vision''"
  then show "selectModel models3 = None" by (rule selectModel_none)
next
  assume a: "tags_at ep (clock w) = TagsOk (Some models) \<and> selectModel models = Some chosen \<and>
    chosen \<noteq> []"
  have c: "checkConnection ep w =
    (\<lparr>isRunning = True, error = None\<rparr>,
     w\<lparr>ollama := (ollama w)\<lparr>modelName := chosen, isConnected := True\<rparr>,
       trace := trace w @ [TagsCall]\<rparr>)"
    using a checkConnection_selected by blast
  show "let w' = snd (checkConnection ep w) in
       isRunning (fst (checkConnection ep w)) \<and> isConnected (ollama w') \<and>
       modelName (ollama w') = chosen \<and>
       trace (snd (generate ep prompt w')) = trace w' @ [GenerateCall chosen prompt] \<and>
       trace (snd (getEmbeddings ep [text] w')) = trace w' @ [EmbeddingsCall chosen text]"
    unfolding Let_def c
    by (simp add: generate_connected_trace getEmbeddings_one_trace)
qed

theorem model_selection_order_witness:
  "selectModel [''llava-vision'', ''llama3.2:latest''] = Some ''llama3.2'' \<and>
   selectModel [''llava-vision'', ''mistral'', ''phi3''] = Some ''mistral'' \<and>
   selectModel [''llava-vision''] = None \<and>
   modelName (ollama (snd (checkConnection fallbackEndpoint freshWorld))) = ''mistral'' \<and>
   trace (snd (generate fallbackEndpoint ''hi'' (snd (checkConnection fallbackEndpoint freshWorld)))) =
     [TagsCall, GenerateCall ''mistral'' ''hi''] \<and>
   trace (snd (getEmbeddings fallbackEndpoint [''hi''] (snd (checkConnection fallbackEndpoint freshWorld)))) =
     [TagsCall, EmbeddingsCall ''mistral'' ''hi'']"
proof -
  have h1: "\<exists>n\<in>set [''llava-vision'', ''llama3.2:latest'']. n = ''llama3.2'' \<or> startsWith n ''llama3.2:''"
    by simp
  have h2: "(\<forall>n\<in>set ([''llava-vision''] @ ''mistral'' # [''phi3'']).
               n \<noteq> ''llama3.2'' \<and> \<not> startsWith n ''llama3.2:'') \<and>
            (\<forall>n\<in>set [''llava-vision'']. includes_str n ''vision'') \<and>
            \<not> includes_str ''mistral'' ''vision''"
    by simp
  have h3: "\<forall>n\<in>set [''llava-vision'']. n \<noteq> ''llama3.2'' \<and> \<not> startsWith n ''llama3.2:'' \<and>
        includes_str n ''vision''"
    by simp
  have sel: "selectModel [''llava-vision'', ''mistral'', ''phi3''] = Some ''mistral''"
    by (simp add: selectModel_def isLlama32_def isNonVision_def)
  have h4: "tags_at fallbackEndpoint (clock freshWorld) =
              TagsOk (Some [''llava-vision'', ''mistral'', ''phi3'']) \<and>
            selectModel [''llava-vision'', ''mistral'', ''phi3''] = Some ''mistral'' \<and>
            ''mistral'' \<noteq> []"
    using sel by (simp add: fallbackEndpoint_def)
  have c: "trace (snd (checkConnection fallbackEndpoint freshWorld)) = [TagsCall]"
    using checkConnection_selected [of fallbackEndpoint freshWorld "[''llava-vision'', ''mistral'', ''phi3'']" "''mistral''"] h4
    by (simp add: freshWorld_def)
  show ?thesis
    using model_selection_order [of "[''llava-vision'', ''llama3.2:latest'']"
        "[''llava-vision'']" "''mistral''" "[''phi3'']" "[''llava-vision'']"
        fallbackEndpoint freshWorld "[''llava-vision'', ''mistral'', ''phi3'']" "''mistral''"
        "''hi''" "''hi''"] h1 h2 h3 h4 c
    by (simp add: Let_def)
qed

text \<open>
  C8 as stated fails: with the models \<^verbatim>\<open>mistral\<close> and \<^verbatim>\<open>llama3.2:1b\<close> listed there is
  no exact match of the preferred name and the first non-vision model is \<^verbatim>\<open>mistral\<close>,
  yet discovery selects and records \<^verbatim>\<open>llama3.2\<close>.
\<close>

theorem model_selection_counterexample:
  "''llama3.2'' \<notin> set [''mistral'', ''llama3.2:1b''] \<and>
   \<not> includes_str ''mistral'' ''vision'' \<and>
   fst (detectAvailableModel taggedEndpoint freshWorld) = Some ''llama3.2'' \<and>
   modelName (ollama (snd (checkConnection taggedEndpoint freshWorld))) = ''llama3.2''"
  by (simp add: checkConnection_def waitForConnection_def waitForConnection_from.simps
      detectAvailableModel_def selectModel_def isLlama32_def isNonVision_def truthy_def
      connectWith_def maxRetries_def clock_def emit_def taggedEndpoint_def freshWorld_def Let_def)


section \<open>Embeddings\<close>

lemma emit_simps [simp]:
  "clock (emit e w) = Suc (clock w)" "ollama (emit e w) = ollama w"
  "trace (emit e w) = trace w @ [e]"
  by (simp_all add: clock_def emit_def)

lemma embeddings_loop_ok:
  "\<forall>i<length texts. embeddings_at ep (clock w + i) (modelName (ollama w)) (texts ! i) =
       EmbeddingsOk (vs ! i) \<Longrightarrow>
   length vs = length texts \<Longrightarrow>
   embeddings_loop ep texts acc w =
     (Inr (acc @ vs), w\<lparr>trace := trace w @ map (EmbeddingsCall (modelName (ollama w))) texts\<rparr>)"
proof (induction texts arbitrary: acc w vs)
  case Nil
  then show ?case by simp
next
  case (Cons t ts)
  then obtain v vs' where vs: "vs = v # vs'" by (cases vs) auto
  let ?w1 = "emit (EmbeddingsCall (modelName (ollama w)) t) w"
  have first: "embeddings_at ep (clock w) (modelName (ollama w)) t = EmbeddingsOk v"
    using Cons.prems(1) vs by force
  have rest: "\<forall>i<length ts. embeddings_at ep (clock ?w1 + i) (modelName (ollama ?w1)) (ts ! i) =
       EmbeddingsOk (vs' ! i)"
  proof (intro allI impI)
    fix i assume "i < length ts"
    then have "Suc i < length (t # ts)" by simp
    from Cons.prems(1) [rule_format, OF this] show
      "embeddings_at ep (clock ?w1 + i) (modelName (ollama ?w1)) (ts ! i) = EmbeddingsOk (vs' ! i)"
      using vs by simp
  qed
  have len: "length vs' = length ts" using Cons.prems(2) vs by simp
  have "embeddings_loop ep (t # ts) acc w = embeddings_loop ep ts (acc @ [v]) ?w1"
    using first by (simp add: Let_def)
  also have "\<dots> = (Inr ((acc @ [v]) @ vs'),
      ?w1\<lparr>trace := trace ?w1 @ map (EmbeddingsCall (modelName (ollama ?w1))) ts\<rparr>)"
    using Cons.IH [OF rest len] .
  finally show ?case using vs by (simp add: emit_def)
qed

lemma embeddings_loop_fail:
  "j < length texts \<Longrightarrow>
   \<forall>i<j. \<not> embeddingFailed (embeddings_at ep (clock w + i) (modelName (ollama w)) (texts ! i)) \<Longrightarrow>
   embeddingFailed (embeddings_at ep (clock w + j) (modelName (ollama w)) (texts ! j)) \<Longrightarrow>
   \<exists>msg. embeddings_loop ep texts acc w =
     (Inl (Error msg),
      w\<lparr>trace := trace w @ map (EmbeddingsCall (modelName (ollama w))) (take (Suc j) texts)\<rparr>)"
proof (induction texts arbitrary: acc w j)
  case Nil
  then show ?case by simp
next
  case (Cons t ts)
  let ?w1 = "emit (EmbeddingsCall (modelName (ollama w)) t) w"
  show ?case
  proof (cases j)
    case 0
    then have "embeddingFailed (embeddings_at ep (clock w) (modelName (ollama w)) t)"
      using Cons.prems(3) by simp
    then show ?thesis
      using 0 by (auto simp: embeddingFailed_def Let_def emit_def split: embeddings_response.splits)
  next
    case (Suc j')
    have "\<not> embeddingFailed (embeddings_at ep (clock w) (modelName (ollama w)) t)"
      using Cons.prems(2) Suc by force
    then obtain v where first: "embeddings_at ep (clock w) (modelName (ollama w)) t = EmbeddingsOk v"
      by (auto simp: embeddingFailed_def split: embeddings_response.splits)
    have j': "j' < length ts" using Cons.prems(1) Suc by simp
    have pre: "\<forall>i<j'. \<not> embeddingFailed
        (embeddings_at ep (clock ?w1 + i) (modelName (ollama ?w1)) (ts ! i))"
    proof (intro allI impI)
      fix i assume "i < j'"
      then have "Suc i < j" using Suc by simp
      from Cons.prems(2) [rule_format, OF this] show
        "\<not> embeddingFailed (embeddings_at ep (clock ?w1 + i) (modelName (ollama ?w1)) (ts ! i))"
        by simp
    qed
    have bad: "embeddingFailed (embeddings_at ep (clock ?w1 + j') (modelName (ollama ?w1)) (ts ! j'))"
      using Cons.prems(3) Suc by simp
    obtain msg where "embeddings_loop ep ts (acc @ [v]) ?w1 =
       (Inl (Error msg),
        ?w1\<lparr>trace := trace ?w1 @ map (EmbeddingsCall (modelName (ollama ?w1))) (take (Suc j') ts)\<rparr>)"
      using Cons.IH [OF j' pre bad] by blast
    then show ?thesis
      using first Suc by (simp add: Let_def emit_def)
  qed
qed

text \<open>
  C6. On a connected service \<^verbatim>\<open>getEmbeddings\<close> issues one embeddings call per input
  text, one after the other in input order. If every call succeeds it returns the
  vectors, one per text, in the same order. If the call for the text at position \<open>j\<close> is
  the first that fails, the operation fails with an error ("Failed to generate
  embeddings: ..."), the calls issued are exactly those for the texts up to position
  \<open>j\<close>, and no list of vectors is returned.
\<close>

theorem getEmbeddings_sequential:
  assumes "isConnected (ollama w)"
  shows "((\<forall>i<length texts. embeddings_at ep (clock w + i) (modelName (ollama w)) (texts ! i) =
             EmbeddingsOk (vs ! i)) \<and> length vs = length texts \<longrightarrow>
          getEmbeddings ep texts w =
            (Inr vs, w\<lparr>trace := trace w @ map (EmbeddingsCall (modelName (ollama w))) texts\<rparr>)) \<and>
         (j < length texts' \<and>
          (\<forall>i<j. \<not> embeddingFailed
                    (embeddings_at ep (clock w + i) (modelName (ollama w)) (texts' ! i))) \<and>
          embeddingFailed (embeddings_at ep (clock w + j) (modelName (ollama w)) (texts' ! j)) \<longrightarrow>
          (\<exists>msg. getEmbeddings ep texts' w =
             (Inl (Error (''Failed to generate embeddings: '' @ msg)),
              w\<lparr>trace := trace w @
                   map (EmbeddingsCall (modelName (ollama w))) (take (Suc j) texts')\<rparr>)))"
proof (intro conjI impI)
  assume a: "(\<forall>i<length texts. embeddings_at ep (clock w + i) (modelName (ollama w)) (texts ! i) =
             EmbeddingsOk (vs ! i)) \<and> length vs = length texts"
  then have "embeddings_loop ep texts [] w =
     (Inr ([] @ vs), w\<lparr>trace := trace w @ map (EmbeddingsCall (modelName (ollama w))) texts\<rparr>)"
    by (intro embeddings_loop_ok) simp_all
  then show "getEmbeddings ep texts w =
            (Inr vs, w\<lparr>trace := trace w @ map (EmbeddingsCall (modelName (ollama w))) texts\<rparr>)"
    using assms by (simp add: getEmbeddings_def ensureConnected_def)
next
  assume a: "j < length texts' \<and>
          (\<forall>i<j. \<not> embeddingFailed
                    (embeddings_at ep (clock w + i) (modelName (ollama w)) (texts' ! i))) \<and>
          embeddingFailed (embeddings_at ep (clock w + j) (modelName (ollama w)) (texts' ! j))"
  then obtain msg where "embeddings_loop ep texts' [] w =
     (Inl (Error msg),
      w\<lparr>trace := trace w @ map (EmbeddingsCall (modelName (ollama w))) (take (Suc j) texts')\<rparr>)"
    using embeddings_loop_fail [of j texts' ep w "[]"] by blast
  then show "\<exists>msg. getEmbeddings ep texts' w =
             (Inl (Error (''Failed to generate embeddings: '' @ msg)),
              w\<lparr>trace := trace w @
                   map (EmbeddingsCall (modelName (ollama w))) (take (Suc j) texts')\<rparr>)"
    using assms by (simp add: getEmbeddings_def ensureConnected_def)
qed

theorem getEmbeddings_sequential_witness:
  "isConnected (ollama connectedWorld) \<and>
   getEmbeddings liveEndpoint [''a'', ''b''] connectedWorld =
     (Inr [[1, 0], [1, 0]],
      connectedWorld\<lparr>trace := [TagsCall, EmbeddingsCall ''llama3.2'' ''a'',
                                 EmbeddingsCall ''llama3.2'' ''b'']\<rparr>) \<and>
   (\<exists>msg. getEmbeddings liveEndpoint [''a'', ''bad'', ''c''] connectedWorld =
     (Inl (Error (''Failed to generate embeddings: '' @ msg)),
      connectedWorld\<lparr>trace := [TagsCall, EmbeddingsCall ''llama3.2'' ''a'',
                                 EmbeddingsCall ''llama3.2'' ''bad'']\<rparr>))"
proof -
  have c: "isConnected (ollama connectedWorld)" by (simp add: connectedWorld_def)
  have h1: "(\<forall>i<length [''a'', ''b''].
               embeddings_at liveEndpoint (clock connectedWorld + i)
                 (modelName (ollama connectedWorld)) ([''a'', ''b''] ! i) =
               EmbeddingsOk ([[1, 0], [1, 0]] ! i)) \<and>
            length [[1, 0], [1::real, 0]] = length [''a'', ''b'']"
    by (simp add: liveEndpoint_def less_Suc_eq nth_Cons')
  have h2: "(1::nat) < length [''a'', ''bad'', ''c''] \<and>
          (\<forall>i<1. \<not> embeddingFailed
                    (embeddings_at liveEndpoint (clock connectedWorld + i)
                       (modelName (ollama connectedWorld)) ([''a'', ''bad'', ''c''] ! i))) \<and>
          embeddingFailed (embeddings_at liveEndpoint (clock connectedWorld + 1)
             (modelName (ollama connectedWorld)) ([''a'', ''bad'', ''c''] ! 1))"
    by (simp add: liveEndpoint_def embeddingFailed_def)
  show ?thesis
    using getEmbeddings_sequential [OF c, of "[''a'', ''b'']" liveEndpoint "[[1, 0], [1, 0]]"
        1 "[''a'', ''bad'', ''c'']"] h1 h2 c
    by (simp add: connectedWorld_def)
qed


section \<open>Cosine similarity and retrieval\<close>

lemma exact_add_NaN: "exact_add v NaN = NaN"
  by (cases v) simp_all

lemma exact_mul_NaN: "exact_mul v NaN = NaN"
  by (cases v) simp_all

lemma exact_div_NaN: "exact_div v NaN = NaN"
  by (cases v) simp_all

lemma exact_mul_zero:
  "exact_mul (Num 0) v = Num 0 \<or> exact_mul (Num 0) v = NaN"
  "exact_mul v (Num 0) = Num 0 \<or> exact_mul v (Num 0) = NaN"
  by (cases v; simp)+

lemma ieee_exactArithmetic: "ieee exactArithmetic"
  unfolding ieee_def exactArithmetic_def
  by (simp add: exact_add_NaN exact_mul_NaN exact_div_NaN exact_mul_zero exact_sub_def)




lemma ieee_difference:
  assumes "ieee ar"
  shows "fsub ar (Num x) (Num y) \<noteq> NaN"
    "js_gt (fsub ar (Num x) (Num y)) (Num 0) = (y < x)"
    "js_gt (Num 0) (fsub ar (Num x) (Num y)) = (x < y)"
  using assms unfolding ieee_def by blast+

















lemma compares_exclusive: "comparesAfter c x y \<Longrightarrow> \<not> comparesBefore c x y"
  by (cases "sortCompare c x y") (simp_all add: comparesAfter_def comparesBefore_def)

lemma consistent_refl: "consistent c S \<Longrightarrow> a \<in> S \<Longrightarrow> comparesEqual c a a"
  unfolding consistent_def by blast

lemma consistent_sym:
  "consistent c S \<Longrightarrow> a \<in> S \<Longrightarrow> b \<in> S \<Longrightarrow> comparesEqual c a b \<Longrightarrow> comparesEqual c b a"
  unfolding consistent_def by blast

lemma consistent_trans_equal:
  "consistent c S \<Longrightarrow> a \<in> S \<Longrightarrow> b \<in> S \<Longrightarrow> d \<in> S \<Longrightarrow>
   comparesEqual c a b \<Longrightarrow> comparesEqual c b d \<Longrightarrow> comparesEqual c a d"
  unfolding consistent_def by blast

lemma consistent_trans_before:
  "consistent c S \<Longrightarrow> a \<in> S \<Longrightarrow> b \<in> S \<Longrightarrow> d \<in> S \<Longrightarrow>
   comparesBefore c a b \<Longrightarrow> comparesBefore c b d \<Longrightarrow> comparesBefore c a d"
  unfolding consistent_def by blast

lemma consistent_trans_after:
  "consistent c S \<Longrightarrow> a \<in> S \<Longrightarrow> b \<in> S \<Longrightarrow> d \<in> S \<Longrightarrow>
   comparesAfter c a b \<Longrightarrow> comparesAfter c b d \<Longrightarrow> comparesAfter c a d"
  unfolding consistent_def by blast

lemma consistent_before_after:
  assumes c: "consistent c S" and s: "a \<in> S" "b \<in> S" and ba: "comparesBefore c a b"
  shows "comparesAfter c b a"
proof (rule ccontr)
  assume n: "\<not> comparesAfter c b a"
  show False
  proof (cases "comparesBefore c b a")
    case True
    then have "comparesBefore c a a"
      using consistent_trans_before [OF c s(1) s(2) s(1) ba] by simp
    then show False
      using consistent_refl [OF c s(1)] by (simp add: comparesEqual_def)
  next
    case False
    with n have "comparesEqual c b a" by (simp add: comparesEqual_def)
    then have "comparesEqual c a b" by (rule consistent_sym [OF c s(2) s(1)])
    then show False using ba by (simp add: comparesEqual_def)
  qed
qed

lemma consistent_after_before:
  assumes c: "consistent c S" and s: "a \<in> S" "b \<in> S" and ab: "comparesAfter c a b"
  shows "comparesBefore c b a"
proof (rule ccontr)
  assume n: "\<not> comparesBefore c b a"
  show False
  proof (cases "comparesAfter c b a")
    case True
    then have "comparesAfter c a a"
      using consistent_trans_after [OF c s(1) s(2) s(1) ab] by simp
    then show False
      using consistent_refl [OF c s(1)] by (simp add: comparesEqual_def)
  next
    case False
    with n have "comparesEqual c b a" by (simp add: comparesEqual_def)
    then have "comparesEqual c a b" by (rule consistent_sym [OF c s(2) s(1)])
    then show False using ab by (simp add: comparesEqual_def)
  qed
qed

text \<open>If \<open>z\<close> compares before \<open>x\<close> and \<open>x\<close> does not compare after \<open>y\<close>, then \<open>z\<close> compares before \<open>y\<close>.\<close>

lemma consistent_before_chain:
  assumes c: "consistent c S" and s: "z \<in> S" "x \<in> S" "y \<in> S"
    and zx: "comparesBefore c z x" and xy: "\<not> comparesAfter c x y"
  shows "comparesBefore c z y"
proof (cases "comparesBefore c x y")
  case True
  then show ?thesis using consistent_trans_before [OF c s(1) s(2) s(3) zx] by simp
next
  case False
  with xy have exy: "comparesEqual c x y" by (simp add: comparesEqual_def)
  show ?thesis
  proof (rule ccontr)
    assume n: "\<not> comparesBefore c z y"
    show False
    proof (cases "comparesAfter c z y")
      case True
      then have "comparesBefore c y z" by (rule consistent_after_before [OF c s(1) s(3)])
      then have "comparesBefore c y x"
        using consistent_trans_before [OF c s(3) s(1) s(2)] zx by simp
      moreover have "comparesEqual c y x" by (rule consistent_sym [OF c s(2) s(3) exy])
      ultimately show False by (simp add: comparesEqual_def)
    next
      case False
      with n have "comparesEqual c z y" by (simp add: comparesEqual_def)
      moreover have "comparesEqual c y x" by (rule consistent_sym [OF c s(2) s(3) exy])
      ultimately have "comparesEqual c z x"
        using consistent_trans_equal [OF c s(1) s(3) s(2)] by simp
      then show False using zx by (simp add: comparesEqual_def)
    qed
  qed
qed

lemma mset_sort_insert: "mset (sort_insert c x ys) = add_mset x (mset ys)"
  by (induction ys) auto

lemma mset_stableSort: "mset (stableSort c xs) = mset xs"
  by (induction xs) (simp_all add: stableSort_def mset_sort_insert)

lemma set_sort_insert: "set (sort_insert c x ys) = insert x (set ys)"
  by (induction ys) auto

lemma set_stableSort: "set (stableSort c xs) = set xs"
  using mset_stableSort [of c xs] by (metis set_mset_mset)

lemma sort_insert_sorted:
  assumes c: "consistent c S" and x: "x \<in> S"
  shows "set ys \<subseteq> S \<Longrightarrow> sorted_wrt (\<lambda>u v. \<not> comparesBefore c v u) ys \<Longrightarrow>
         sorted_wrt (\<lambda>u v. \<not> comparesBefore c v u) (sort_insert c x ys)"
proof (induction ys)
  case Nil
  then show ?case by simp
next
  case (Cons y ys)
  have y: "y \<in> S" and ys: "set ys \<subseteq> S" using Cons.prems(1) by simp_all
  show ?case
  proof (cases "comparesAfter c x y")
    case True
    have "sorted_wrt (\<lambda>u v. \<not> comparesBefore c v u) (sort_insert c x ys)"
      using Cons.IH ys Cons.prems(2) by simp
    moreover have "\<forall>v\<in>set (sort_insert c x ys). \<not> comparesBefore c v y"
      using Cons.prems(2) compares_exclusive [OF True] by (auto simp: set_sort_insert)
    ultimately show ?thesis using True by simp
  next
    case False
    have "\<forall>v\<in>set (y # ys). \<not> comparesBefore c v x"
    proof (intro ballI notI)
      fix v assume v: "v \<in> set (y # ys)" and b: "comparesBefore c v x"
      have vS: "v \<in> S" using v Cons.prems(1) by auto
      have "comparesBefore c v y"
        by (rule consistent_before_chain [OF c vS x y b False])
      moreover have "\<not> comparesBefore c v y"
      proof (cases "v = y")
        case True
        then show ?thesis
          using consistent_refl [OF c y] by (simp add: comparesEqual_def)
      next
        case False
        then show ?thesis using v Cons.prems(2) by auto
      qed
      ultimately show False by simp
    qed
    then show ?thesis using False Cons.prems(2) by simp
  qed
qed

lemma stableSort_sorted:
  assumes c: "consistent c S"
  shows "set xs \<subseteq> S \<Longrightarrow> sorted_wrt (\<lambda>u v. \<not> comparesBefore c v u) (stableSort c xs)"
proof (induction xs)
  case Nil
  then show ?case by (simp add: stableSort_def)
next
  case (Cons x xs)
  have s: "stableSort c (x # xs) = sort_insert c x (stableSort c xs)"
    by (simp add: stableSort_def)
  show ?case
    unfolding s
  proof (rule sort_insert_sorted [OF c])
    show "x \<in> S" using Cons.prems by simp
    show "set (stableSort c xs) \<subseteq> S" using Cons.prems by (simp add: set_stableSort)
    show "sorted_wrt (\<lambda>u v. \<not> comparesBefore c v u) (stableSort c xs)"
      using Cons.IH Cons.prems by simp
  qed
qed

lemma sort_insert_filter:
  assumes c: "consistent c S" and x: "x \<in> S" and d: "d \<in> S"
  shows "set ys \<subseteq> S \<Longrightarrow>
         filter (comparesEqual c d) (sort_insert c x ys) =
         filter (comparesEqual c d) (x # ys)"
proof (induction ys)
  case Nil
  then show ?case by simp
next
  case (Cons y ys)
  have y: "y \<in> S" and ys: "set ys \<subseteq> S" using Cons.prems by simp_all
  show ?case
  proof (cases "comparesAfter c x y")
    case False
    then show ?thesis by simp
  next
    case True
    have ih: "filter (comparesEqual c d) (sort_insert c x ys) =
              filter (comparesEqual c d) (x # ys)"
      using Cons.IH ys by simp
    have "\<not> (comparesEqual c d x \<and> comparesEqual c d y)"
    proof
      assume e: "comparesEqual c d x \<and> comparesEqual c d y"
      then have "comparesEqual c x d" using consistent_sym [OF c d x] by simp
      then have "comparesEqual c x y"
        using consistent_trans_equal [OF c x d y] e by simp
      then show False using True by (simp add: comparesEqual_def)
    qed
    then show ?thesis using True ih by auto
  qed
qed

lemma stableSort_stable:
  assumes c: "consistent c S" and d: "d \<in> S"
  shows "set xs \<subseteq> S \<Longrightarrow>
         filter (comparesEqual c d) (stableSort c xs) = filter (comparesEqual c d) xs"
proof (induction xs)
  case Nil
  then show ?case by (simp add: stableSort_def)
next
  case (Cons x xs)
  have s: "stableSort c (x # xs) = sort_insert c x (stableSort c xs)"
    by (simp add: stableSort_def)
  have x: "x \<in> S" and xs: "set xs \<subseteq> S" using Cons.prems by simp_all
  have "filter (comparesEqual c d) (sort_insert c x (stableSort c xs)) =
        filter (comparesEqual c d) (x # stableSort c xs)"
    by (rule sort_insert_filter [OF c x d]) (simp add: set_stableSort xs)
  then show ?case
    unfolding s using Cons.IH xs by simp
qed

lemma sortContract_stableSort: "sortContract stableSort"
  unfolding sortContract_def
proof (intro allI conjI impI ballI)
  fix c :: "'a \<Rightarrow> 'a \<Rightarrow> jsnum" and xs :: "'a list"
  show "mset (stableSort c xs) = mset xs" by (rule mset_stableSort)
  assume c: "consistent c (set xs)"
  show "sorted_wrt (\<lambda>u v. \<not> comparesBefore c v u) (stableSort c xs)"
    by (rule stableSort_sorted [OF c]) simp
  fix d assume "d \<in> set xs"
  then show "filter (comparesEqual c d) (stableSort c xs) = filter (comparesEqual c d) xs"
    by (intro stableSort_stable [OF c]) simp_all
qed


lemma sortContract_mset: "sortContract srt \<Longrightarrow> mset (srt c xs) = mset xs"
  unfolding sortContract_def by blast

lemma sortContract_length: "sortContract srt \<Longrightarrow> length (srt c xs) = length xs"
  using sortContract_mset [of srt c xs] by (metis size_mset)

lemma sortContract_set: "sortContract srt \<Longrightarrow> set (srt c xs) = set xs"
  using sortContract_mset [of srt c xs] by (metis set_mset_mset)

lemma sortContract_sorted:
  "sortContract srt \<Longrightarrow> consistent c (set xs) \<Longrightarrow>
   sorted_wrt (\<lambda>u v. \<not> comparesBefore c v u) (srt c xs)"
  unfolding sortContract_def by blast

lemma sortContract_stable:
  "sortContract srt \<Longrightarrow> consistent c (set xs) \<Longrightarrow> d \<in> set xs \<Longrightarrow>
   filter (comparesEqual c d) (srt c xs) = filter (comparesEqual c d) xs"
  unfolding sortContract_def by blast

lemma length_similarities: "length (similarities ar q docs) = length docs"
  by (simp add: similarities_def)

lemma map_index_similarities: "map index (similarities ar q docs) = [0..<length docs]"
proof -
  have "map index (similarities ar q docs) = map snd (zip docs [0..<length docs])"
    by (simp add: similarities_def case_prod_unfold comp_def)
  then show ?thesis by simp
qed


lemma score_similarities:
  assumes "s \<in> set (similarities ar q docs)"
  shows "index s < length docs \<and>
         score s = cosineSimilarity ar q (embedding (docs ! index s))"
proof -
  from assms obtain d i where "(d, i) \<in> set (zip docs [0..<length docs])"
    and s: "s = \<lparr>index = i, score = cosineSimilarity ar q (embedding d)\<rparr>"
    by (auto simp: similarities_def)
  then have "i < length docs" "d = docs ! i"
    by (auto simp: in_set_zip)
  then show ?thesis using s by simp
qed

lemma getEmbeddings_query_ok:
  assumes "isConnected (ollama w)"
    and "embeddings_at ep (clock w) (modelName (ollama w)) query = EmbeddingsOk q"
  shows "getEmbeddings ep [query] w =
           (Inr [q], emit (EmbeddingsCall (modelName (ollama w)) query) w)"
  using assms by (simp add: getEmbeddings_def ensureConnected_def Let_def)

lemma getEmbeddings_query_failed:
  assumes "isConnected (ollama w)"
    and "embeddingFailed (embeddings_at ep (clock w) (modelName (ollama w)) query)"
  shows "\<exists>msg. getEmbeddings ep [query] w =
           (Inl (Error msg), emit (EmbeddingsCall (modelName (ollama w)) query) w)"
  using assms
  by (auto simp: getEmbeddings_def ensureConnected_def Let_def embeddingFailed_def
      split: embeddings_response.splits)

lemma similaritySearch_found:
  assumes "isInitialized st" "isConnected (ollama w)" "documents st \<noteq> []"
    and "embeddings_at ep (clock w) (modelName (ollama w)) query = EmbeddingsOk q"
  shows "similaritySearch ep query k st w =
           (Inr (map (\<lambda>s. pageContent (documents st ! index s)) (topK ep q k (documents st))),
            st, emit (EmbeddingsCall (modelName (ollama w)) query) w)"
  using assms getEmbeddings_query_ok [OF assms(2,4)]
  by (simp add: similaritySearch_def ensureInitialized_def)

lemma similaritySearch_swallows:
  assumes "isInitialized st" "isConnected (ollama w)" "documents st \<noteq> []"
    and "embeddingFailed (embeddings_at ep (clock w) (modelName (ollama w)) query)"
  shows "similaritySearch ep query k st w =
           (Inr [], st, emit (EmbeddingsCall (modelName (ollama w)) query) w)"
  using assms getEmbeddings_query_failed [OF assms(2,4)]
  by (auto simp: similaritySearch_def ensureInitialized_def)

lemma cosine_eval:
  "cosineSimilarity exactArithmetic [1, 0] [0, 1] = Num 0"
  "cosineSimilarity exactArithmetic [1, 0] [1, 0] = Num 1"
  "cosineSimilarity exactArithmetic [1, 0] [2, 0] = Num 1"
  "cosineSimilarity exactArithmetic [1, 0] [0, 0] = NaN"
  by (simp_all add: cosineSimilarity_def dotProduct_def magnitude_def sumOfSquares_def
      elementAt_def exactArithmetic_def)




text \<open>
  C9 (as amended). On an empty store that is already initialised, \<^verbatim>\<open>similaritySearch\<close>
  returns the empty sequence for every query and \<open>k\<close>, with no network call. On an empty
  store that is not yet initialised it first checks the connection: when the check
  succeeds it returns the empty sequence, and when the check fails it raises the
  connection error.
\<close>

theorem similaritySearch_empty_store:
  "(documents st = [] \<and> isInitialized st \<longrightarrow>
      similaritySearch ep query k st w = (Inr [], st, w)) \<and>
   (documents st' = [] \<and> \<not> isInitialized st' \<and> isRunning (fst (checkConnection ep' w')) \<longrightarrow>
      similaritySearch ep' query k st' w' =
        (Inr [], st'\<lparr>isInitialized := True\<rparr>, snd (checkConnection ep' w'))) \<and>
   (\<not> isInitialized st'' \<and> \<not> isRunning (fst (checkConnection ep'' w'')) \<longrightarrow>
      (\<exists>msg. similaritySearch ep'' query k st'' w'' =
         (Inl (Error msg), st'', snd (checkConnection ep'' w''))))"
  by (auto simp: similaritySearch_def ensureInitialized_def initialize_def
      split: prod.splits option.splits)

theorem similaritySearch_empty_store_witness:
  "similaritySearch deadEndpoint ''q'' 3 (newStore\<lparr>isInitialized := True\<rparr>) freshWorld =
     (Inr [], newStore\<lparr>isInitialized := True\<rparr>, freshWorld) \<and>
   fst (similaritySearch liveEndpoint ''q'' 3 newStore freshWorld) = Inr [] \<and>
   (\<exists>msg. fst (similaritySearch deadEndpoint ''q'' 3 newStore freshWorld) = Inl (Error msg))"
proof -
  have h1: "documents (newStore\<lparr>isInitialized := True\<rparr>) = [] \<and>
            isInitialized (newStore\<lparr>isInitialized := True\<rparr>)"
    by (simp add: newStore_def)
  have live: "isRunning (fst (checkConnection liveEndpoint freshWorld))"
    by (simp add: checkConnection_def waitForConnection_def waitForConnection_from.simps
      detectAvailableModel_def selectModel_def isLlama32_def isNonVision_def truthy_def
      connectWith_def maxRetries_def clock_def emit_def liveEndpoint_def freshWorld_def Let_def)
  have h2: "documents newStore = [] \<and> \<not> isInitialized newStore \<and>
            isRunning (fst (checkConnection liveEndpoint freshWorld))"
    using live by (simp add: newStore_def)
  have dead: "\<not> isRunning (fst (checkConnection deadEndpoint freshWorld))"
    by (simp add: checkConnection_def waitForConnection_def waitForConnection_from.simps
      detectAvailableModel_def truthy_def backoff_def retryDelay_def
      maxRetries_def clock_def emit_def deadEndpoint_def freshWorld_def Let_def)
  have h3: "\<not> isInitialized newStore \<and> \<not> isRunning (fst (checkConnection deadEndpoint freshWorld))"
    using dead by (simp add: newStore_def)
  show ?thesis
    using similaritySearch_empty_store [of "newStore\<lparr>isInitialized := True\<rparr>" deadEndpoint
        "''q''" 3 freshWorld newStore liveEndpoint freshWorld newStore deadEndpoint freshWorld]
      h1 h2 h3
    by auto
qed

text \<open>
  C9 as stated fails: on a fresh, empty store with the endpoint unreachable,
  \<^verbatim>\<open>similaritySearch\<close> raises the connection error after three discovery calls.
\<close>

theorem similaritySearch_empty_store_counterexample:
  "documents newStore = [] \<and>
   similaritySearch deadEndpoint ''q'' 3 newStore freshWorld =
     (Inl (Error (''Could not connect to Ollama at http://127.0.0.1:11434'' @
                  '' after multiple attempts. Please ensure Ollama is running.'')),
      newStore,
      freshWorld\<lparr>trace := [TagsCall, SleepCall 1000, TagsCall, SleepCall 1000, TagsCall]\<rparr>)"
  by (simp add: similaritySearch_def ensureInitialized_def initialize_def newStore_def
      checkConnection_def waitForConnection_def waitForConnection_from.simps
      detectAvailableModel_def truthy_def backoff_def retryDelay_def connectError_def
      maxRetries_def clock_def emit_def deadEndpoint_def freshWorld_def Let_def)



lemma sortCompare_number: "c x y \<noteq> NaN \<Longrightarrow> sortCompare c x y = c x y"
  by (cases "c x y") (simp_all add: sortCompare_def)

lemma compare_scores:
  assumes "ieee ar" "score x = Num a" "score y = Num b"
  shows "byScoreDescending ar x y \<noteq> NaN"
    and "comparesAfter (byScoreDescending ar) x y = (a < b)"
    and "comparesBefore (byScoreDescending ar) x y = (b < a)"
    and "comparesEqual (byScoreDescending ar) x y = (a = b)"
proof -
  show n: "byScoreDescending ar x y \<noteq> NaN"
    using assms(2,3) ieee_difference(1) [OF assms(1)] by (simp add: byScoreDescending_def)
  have s: "sortCompare (byScoreDescending ar) x y = fsub ar (Num b) (Num a)"
    using sortCompare_number [of "byScoreDescending ar" x y] n assms(2,3)
    by (simp add: byScoreDescending_def)
  show after: "comparesAfter (byScoreDescending ar) x y = (a < b)"
    using ieee_difference(2) [OF assms(1)] by (simp add: comparesAfter_def s)
  show before: "comparesBefore (byScoreDescending ar) x y = (b < a)"
    using ieee_difference(3) [OF assms(1)] by (simp add: comparesBefore_def s)
  show "comparesEqual (byScoreDescending ar) x y = (a = b)"
    unfolding comparesEqual_def after before by auto
qed

lemma consistent_scores:
  assumes i: "ieee ar" and f: "\<forall>z\<in>S. score z = Num (f z)"
  shows "consistent (byScoreDescending ar) S"
proof -
  have n: "byScoreDescending ar a b \<noteq> NaN" if "a \<in> S" "b \<in> S" for a b
    using compare_scores(1) [OF i, of a "f a" b "f b"] f that by simp
  have af: "comparesAfter (byScoreDescending ar) a b = (f a < f b)" if "a \<in> S" "b \<in> S" for a b
    using compare_scores(2) [OF i, of a "f a" b "f b"] f that by simp
  have be: "comparesBefore (byScoreDescending ar) a b = (f b < f a)" if "a \<in> S" "b \<in> S" for a b
    using compare_scores(3) [OF i, of a "f a" b "f b"] f that by simp
  have eq: "comparesEqual (byScoreDescending ar) a b = (f a = f b)" if "a \<in> S" "b \<in> S" for a b
    using compare_scores(4) [OF i, of a "f a" b "f b"] f that by simp
  show ?thesis
    unfolding consistent_def
  proof (intro conjI ballI impI)
    fix a b assume "a \<in> S" "b \<in> S"
    then show "byScoreDescending ar a b \<noteq> NaN" by (rule n)
  next
    fix a assume "a \<in> S"
    then show "comparesEqual (byScoreDescending ar) a a" by (simp add: eq)
  next
    fix a b assume "a \<in> S" "b \<in> S" "comparesEqual (byScoreDescending ar) a b"
    then show "comparesEqual (byScoreDescending ar) b a" by (simp add: eq)
  next
    fix a b c assume "a \<in> S" "b \<in> S" "c \<in> S"
      "comparesEqual (byScoreDescending ar) a b \<and> comparesEqual (byScoreDescending ar) b c"
    then show "comparesEqual (byScoreDescending ar) a c" by (simp add: eq)
  next
    fix a b c assume "a \<in> S" "b \<in> S" "c \<in> S"
      "comparesBefore (byScoreDescending ar) a b \<and> comparesBefore (byScoreDescending ar) b c"
    then show "comparesBefore (byScoreDescending ar) a c" by (simp add: be)
  next
    fix a b c assume "a \<in> S" "b \<in> S" "c \<in> S"
      "comparesAfter (byScoreDescending ar) a b \<and> comparesAfter (byScoreDescending ar) b c"
    then show "comparesAfter (byScoreDescending ar) a c" by (simp add: af)
  qed
qed

text \<open>
  A list in which no later entry has a higher score, and in which the entries of each
  score keep increasing positions, is ranked by descending score with equal scores in
  order of position.
\<close>

lemma ranked_of_sorted_stable:
  fixes f :: "similarity \<Rightarrow> real"
  shows "sorted_wrt (\<lambda>u v. \<not> f u < f v) ys \<Longrightarrow>
    \<forall>c\<in>set ys. sorted_wrt (\<lambda>u v. index u < index v) (filter (\<lambda>z. f c = f z) ys) \<Longrightarrow>
    sorted_wrt (\<lambda>u v. f v < f u \<or> (f u = f v \<and> index u < index v)) ys"
proof (induction ys)
  case Nil
  then show ?case by simp
next
  case (Cons y ys)
  have tail: "sorted_wrt (\<lambda>u v. \<not> f u < f v) ys" using Cons.prems(1) by simp
  have cls: "\<forall>c\<in>set ys. sorted_wrt (\<lambda>u v. index u < index v) (filter (\<lambda>z. f c = f z) ys)"
  proof
    fix c assume "c \<in> set ys"
    then have "sorted_wrt (\<lambda>u v. index u < index v) (filter (\<lambda>z. f c = f z) (y # ys))"
      using Cons.prems(2) by simp
    then show "sorted_wrt (\<lambda>u v. index u < index v) (filter (\<lambda>z. f c = f z) ys)"
      by (cases "f c = f y") simp_all
  qed
  have head: "\<forall>z\<in>set ys. f z < f y \<or> (f y = f z \<and> index y < index z)"
  proof
    fix z assume z: "z \<in> set ys"
    have le: "\<not> f y < f z" using Cons.prems(1) z by simp
    show "f z < f y \<or> (f y = f z \<and> index y < index z)"
    proof (cases "f z < f y")
      case True
      then show ?thesis by simp
    next
      case False
      with le have e: "f y = f z" by simp
      have "sorted_wrt (\<lambda>u v. index u < index v) (filter (\<lambda>z. f y = f z) (y # ys))"
        using Cons.prems(2) by simp
      then have "\<forall>v\<in>set (filter (\<lambda>z. f y = f z) ys). index y < index v"
        by simp
      then show ?thesis using z e by simp
    qed
  qed
  show ?case
    using head Cons.IH [OF tail cls] by simp
qed

lemma ranking_exists:
  assumes i: "ieee ar" and c: "sortContract srt"
    and num: "\<forall>d\<in>set docs. \<exists>r. cosineSimilarity ar q (embedding d) = Num r"
  shows "set (map index (srt (byScoreDescending ar) (similarities ar q docs))) =
           {0..<length docs} \<and>
         sorted_wrt (ranksBefore (scoreAt ar q docs))
           (map index (srt (byScoreDescending ar) (similarities ar q docs)))"
proof -
  let ?sims = "similarities ar q docs"
  let ?cmp = "byScoreDescending ar"
  let ?sorted = "srt ?cmp ?sims"
  define f where "f s = (case score s of Num r \<Rightarrow> r | _ \<Rightarrow> 0)" for s :: similarity
  have sc: "scoreAt ar q docs (index s) = Num (f s) \<and> score s = Num (f s)"
    if "s \<in> set ?sims" for s
  proof -
    have k: "index s < length docs"
      "score s = cosineSimilarity ar q (embedding (docs ! index s))"
      using score_similarities [OF that] by simp_all
    then have "docs ! index s \<in> set docs" by simp
    then obtain r where "cosineSimilarity ar q (embedding (docs ! index s)) = Num r"
      using num by blast
    then show ?thesis using k by (simp add: f_def scoreAt_def)
  qed
  have fs: "\<forall>z\<in>set ?sims. score z = Num (f z)" using sc by blast
  have cons: "consistent ?cmp (set ?sims)"
    by (rule consistent_scores [OF i fs])
  have st: "set ?sorted = set ?sims" by (rule sortContract_set [OF c])
  have "set (map index ?sorted) = set (map index ?sims)"
    by (simp add: st)
  then have set: "set (map index ?sorted) = {0..<length docs}"
    by (simp only: map_index_similarities set_upt)
  have "sorted_wrt (<) (map index ?sims)"
    by (simp only: map_index_similarities sorted_wrt_upt)
  then have inc: "sorted_wrt (\<lambda>a b. index a < index b) ?sims"
    by (simp add: sorted_wrt_map)
  have "sorted_wrt (\<lambda>u v. \<not> comparesBefore ?cmp v u) ?sorted"
    by (rule sortContract_sorted [OF c cons])
  then have s1: "sorted_wrt (\<lambda>u v. \<not> f u < f v) ?sorted"
  proof (rule sorted_wrt_mono_rel [rotated])
    fix u v assume uv: "u \<in> set ?sorted" "v \<in> set ?sorted"
      and n: "\<not> comparesBefore ?cmp v u"
    have "score u = Num (f u)" "score v = Num (f v)" using uv st fs by simp_all
    then show "\<not> f u < f v"
      using n compare_scores(3) [OF i, of v "f v" u "f u"] by simp
  qed
  have s2: "\<forall>d\<in>set ?sorted.
      sorted_wrt (\<lambda>u v. index u < index v) (filter (\<lambda>z. f d = f z) ?sorted)"
  proof
    fix d assume "d \<in> set ?sorted"
    then have d: "d \<in> set ?sims" using st by simp
    have e: "filter (comparesEqual ?cmp d) ?sorted = filter (comparesEqual ?cmp d) ?sims"
      by (rule sortContract_stable [OF c cons d])
    have l: "filter (\<lambda>z. f d = f z) ?sorted = filter (comparesEqual ?cmp d) ?sorted"
    proof (rule filter_cong [OF refl])
      fix z assume "z \<in> set ?sorted"
      then have "score z = Num (f z)" using st fs by simp
      moreover have "score d = Num (f d)" using d fs by simp
      ultimately show "(f d = f z) = comparesEqual ?cmp d z"
        using compare_scores(4) [OF i, of d "f d" z "f z"] by simp
    qed
    have "sorted_wrt (\<lambda>u v. index u < index v) (filter (comparesEqual ?cmp d) ?sims)"
      using inc by (rule sorted_wrt_filter)
    then show "sorted_wrt (\<lambda>u v. index u < index v) (filter (\<lambda>z. f d = f z) ?sorted)"
      unfolding l e .
  qed
  have "sorted_wrt (\<lambda>u v. f v < f u \<or> (f u = f v \<and> index u < index v)) ?sorted"
    by (rule ranked_of_sorted_stable [OF s1 s2])
  then have "sorted_wrt (\<lambda>a b. ranksBefore (scoreAt ar q docs) (index a) (index b)) ?sorted"
  proof (rule sorted_wrt_mono_rel [rotated])
    fix a b assume ab: "a \<in> set ?sorted" "b \<in> set ?sorted"
      and r: "f b < f a \<or> (f a = f b \<and> index a < index b)"
    then have "a \<in> set ?sims" "b \<in> set ?sims" using st by simp_all
    then have "scoreAt ar q docs (index a) = Num (f a)" "scoreAt ar q docs (index b) = Num (f b)"
      using sc [of a] sc [of b] by blast+
    then show "ranksBefore (scoreAt ar q docs) (index a) (index b)"
      using r by (auto simp: ranksBefore_def)
  qed
  then have "sorted_wrt (ranksBefore (scoreAt ar q docs)) (map index ?sorted)"
    by (simp add: sorted_wrt_map)
  with set show ?thesis by simp
qed


lemma runtime_live:
  "arith liveEndpoint = exactArithmetic" "sortBy liveEndpoint = stableSort"
  "ieee (arith liveEndpoint)" "sortContract (sortBy liveEndpoint)"
  by (simp_all add: liveEndpoint_def ieee_exactArithmetic sortContract_stableSort)

lemma exact_fields:
  "fadd exactArithmetic = exact_add" "fsub exactArithmetic = exact_sub"
  "fmul exactArithmetic = exact_mul" "fdiv exactArithmetic = exact_div"
  "fsqrt exactArithmetic = exact_sqrt"
  by (simp_all add: exactArithmetic_def)

text \<open>
  C5 (as amended). On an initialised store with the service connected, for every runtime
  that meets the laws of double arithmetic and the contract of the sort: when the
  embedding call for the query succeeds and every score, as the runtime computes it, is
  a finite number, \<^verbatim>\<open>similaritySearch\<close> with \<open>k \<le> n\<close> returns exactly \<open>k\<close> texts,
  namely those at the first \<open>k\<close> positions of the ranking of all \<open>n\<close> stored chunks by
  descending score with equal scores in insertion order. When the embedding call for the
  query fails on a non-empty store, it returns the empty list.
\<close>

theorem similaritySearch_top_k:
  assumes "isInitialized st" and "isConnected (ollama w)"
    and "ieee (arith ep)" and "sortContract (sortBy ep)"
  shows "(embeddings_at ep (clock w) (modelName (ollama w)) query = EmbeddingsOk q \<and>
          (\<forall>d\<in>set (documents st). \<exists>r. cosineSimilarity (arith ep) q (embedding d) = Num r) \<and>
          k \<le> length (documents st) \<longrightarrow>
          (\<exists>ranking.
             set ranking = {0..<length (documents st)} \<and>
             length ranking = length (documents st) \<and>
             sorted_wrt (ranksBefore (scoreAt (arith ep) q (documents st))) ranking \<and>
             fst (similaritySearch ep query k st w) =
               Inr (map (\<lambda>i. pageContent (documents st ! i)) (take k ranking)) \<and>
             length (take k ranking) = k)) \<and>
         (documents st \<noteq> [] \<and>
          embeddingFailed (embeddings_at ep (clock w) (modelName (ollama w)) query') \<longrightarrow>
          fst (similaritySearch ep query' k' st w) = Inr [])"
proof (intro conjI impI)
  assume a: "embeddings_at ep (clock w) (modelName (ollama w)) query = EmbeddingsOk q \<and>
          (\<forall>d\<in>set (documents st). \<exists>r. cosineSimilarity (arith ep) q (embedding d) = Num r) \<and>
          k \<le> length (documents st)"
  let ?docs = "documents st"
  let ?sorted = "sortBy ep (byScoreDescending (arith ep)) (similarities (arith ep) q ?docs)"
  let ?ranking = "map index ?sorted"
  have r: "set ?ranking = {0..<length ?docs}"
    "sorted_wrt (ranksBefore (scoreAt (arith ep) q ?docs)) ?ranking"
    using ranking_exists [OF assms(3,4), of ?docs q] a by simp_all
  have len: "length ?ranking = length ?docs"
    using sortContract_length [OF assms(4)] by (simp add: length_similarities)
  have res: "fst (similaritySearch ep query k st w) =
      Inr (map (\<lambda>i. pageContent (?docs ! i)) (take k ?ranking))"
  proof (cases "?docs = []")
    case True
    then have "?ranking = []" using len by simp
    then show ?thesis
      using assms(1) True by (simp add: similaritySearch_def ensureInitialized_def)
  next
    case False
    then have "fst (similaritySearch ep query k st w) =
        Inr (map (\<lambda>s. pageContent (?docs ! index s)) (topK ep q k ?docs))"
      using similaritySearch_found [of st w ep query q k] assms a by simp
    then show ?thesis
      by (simp add: topK_def take_map comp_def)
  qed
  have "length (take k ?ranking) = k" using len a by simp
  with r len res show "\<exists>ranking.
             set ranking = {0..<length (documents st)} \<and>
             length ranking = length (documents st) \<and>
             sorted_wrt (ranksBefore (scoreAt (arith ep) q (documents st))) ranking \<and>
             fst (similaritySearch ep query k st w) =
               Inr (map (\<lambda>i. pageContent (documents st ! i)) (take k ranking)) \<and>
             length (take k ranking) = k"
    by blast
next
  assume "documents st \<noteq> [] \<and>
          embeddingFailed (embeddings_at ep (clock w) (modelName (ollama w)) query')"
  then show "fst (similaritySearch ep query' k' st w) = Inr []"
    using similaritySearch_swallows [of st w ep query' k'] assms by simp
qed

theorem similaritySearch_top_k_witness:
  "isInitialized rankedStore \<and> isConnected (ollama connectedWorld) \<and>
   ieee (arith liveEndpoint) \<and> sortContract (sortBy liveEndpoint) \<and>
   (2::nat) \<le> length (documents rankedStore) \<and>
   (\<exists>ranking.
      set ranking = {0..<3} \<and> length ranking = 3 \<and>
      sorted_wrt (ranksBefore (scoreAt (arith liveEndpoint) [1, 0] (documents rankedStore)))
        ranking \<and>
      fst (similaritySearch liveEndpoint ''q'' 2 rankedStore connectedWorld) =
        Inr (map (\<lambda>i. pageContent (documents rankedStore ! i)) (take 2 ranking)) \<and>
      length (take 2 ranking) = 2) \<and>
   fst (similaritySearch liveEndpoint ''bad'' 2 rankedStore connectedWorld) = Inr [] \<and>
   fst (similaritySearch liveEndpoint ''q'' 2 rankedStore connectedWorld) =
     Inr [''second'', ''third'']"
proof -
  have i: "isInitialized rankedStore" by (simp add: rankedStore_def)
  have c: "isConnected (ollama connectedWorld)" by (simp add: connectedWorld_def)
  have ok: "embeddings_at liveEndpoint (clock connectedWorld)
              (modelName (ollama connectedWorld)) ''q'' = EmbeddingsOk [1, 0]"
    by (simp add: liveEndpoint_def)
  have num: "\<forall>d\<in>set (documents rankedStore).
               \<exists>r. cosineSimilarity (arith liveEndpoint) [1, 0] (embedding d) = Num r"
    by (simp add: runtime_live(1) rankedStore_def cosine_eval)
  have h1: "embeddings_at liveEndpoint (clock connectedWorld) (modelName (ollama connectedWorld))
              ''q'' = EmbeddingsOk [1, 0] \<and>
            (\<forall>d\<in>set (documents rankedStore).
               \<exists>r. cosineSimilarity (arith liveEndpoint) [1, 0] (embedding d) = Num r) \<and>
            (2::nat) \<le> length (documents rankedStore)"
    using ok num by (simp add: rankedStore_def)
  have h2: "documents rankedStore \<noteq> [] \<and>
            embeddingFailed (embeddings_at liveEndpoint (clock connectedWorld)
              (modelName (ollama connectedWorld)) ''bad'')"
    by (simp add: liveEndpoint_def rankedStore_def embeddingFailed_def)
  have n: "length (documents rankedStore) = 3" by (simp add: rankedStore_def)
  have ne: "documents rankedStore \<noteq> []" by (simp add: rankedStore_def)
  have top: "map index (topK liveEndpoint [1, 0] 2 (documents rankedStore)) = [1, 2]"
    by (simp add: topK_def runtime_live(1,2) stableSort_def similarities_def rankedStore_def
        cosine_eval comparesAfter_def sortCompare_def byScoreDescending_def
        exact_fields exact_sub_def)
  have "fst (similaritySearch liveEndpoint ''q'' 2 rankedStore connectedWorld) =
      Inr (map (\<lambda>i. pageContent (documents rankedStore ! i))
             (map index (topK liveEndpoint [1, 0] 2 (documents rankedStore))))"
    using similaritySearch_found [OF i c ne ok, of 2] by (simp add: comp_def)
  then have ev: "fst (similaritySearch liveEndpoint ''q'' 2 rankedStore connectedWorld) =
     Inr [''second'', ''third'']"
    unfolding top by (simp add: rankedStore_def)
  note t = similaritySearch_top_k [OF i c runtime_live(3,4), of "''q''" "[1, 0]" 2 "''bad''" 2]
  have e: "\<exists>ranking.
      set ranking = {0..<3} \<and> length ranking = 3 \<and>
      sorted_wrt (ranksBefore (scoreAt (arith liveEndpoint) [1, 0] (documents rankedStore)))
        ranking \<and>
      fst (similaritySearch liveEndpoint ''q'' 2 rankedStore connectedWorld) =
        Inr (map (\<lambda>i. pageContent (documents rankedStore ! i)) (take 2 ranking)) \<and>
      length (take 2 ranking) = 2"
    using t h1 n by simp
  have b: "fst (similaritySearch liveEndpoint ''bad'' 2 rankedStore connectedWorld) = Inr []"
    using t h2 by blast
  show ?thesis
    using e b ev i c runtime_live(3,4) n by simp
qed

lemma sorted_wrt_related:
  assumes "sorted_wrt R xs" "a \<in> set xs" "b \<in> set xs" "a \<noteq> b"
  shows "R a b \<or> R b a"
proof -
  obtain i j where i: "i < length xs" "xs ! i = a" and j: "j < length xs" "xs ! j = b"
    using assms(2,3) by (auto simp: in_set_conv_nth)
  have "i \<noteq> j" using i j assms(4) by auto
  then have "i < j \<or> j < i" by auto
  then show ?thesis
    using assms(1) i j by (auto simp: sorted_wrt_iff_nth_less)
qed

text \<open>
  C5 as stated fails in two ways. With a corpus of three chunks and \<open>k = 1\<close>, a failing
  embedding call for the query yields no text at all; no arithmetic and no sort is
  reached on that path. With a stored embedding of zero magnitude the scores of the
  three chunks are 0, \<open>NaN\<close> and 1 (exact in doubles); the search with \<open>k = 3\<close> returns
  three texts, and no arrangement of the three positions is ordered by score, whatever
  the sort does with the inconsistent comparator.
\<close>

theorem similaritySearch_top_k_counterexample:
  "(1::nat) \<le> length (documents nanStore) \<and>
   fst (similaritySearch liveEndpoint ''bad'' 1 nanStore connectedWorld) = Inr [] \<and>
   scoreAt (arith liveEndpoint) [1, 0] (documents nanStore) 0 = Num 0 \<and>
   scoreAt (arith liveEndpoint) [1, 0] (documents nanStore) 1 = NaN \<and>
   scoreAt (arith liveEndpoint) [1, 0] (documents nanStore) 2 = Num 1 \<and>
   (\<exists>found. fst (similaritySearch liveEndpoint ''q'' 3 nanStore connectedWorld) = Inr found \<and>
            length found = 3) \<and>
   \<not> (\<exists>ranking. set ranking = {0..<3} \<and>
          sorted_wrt (ranksBefore (scoreAt (arith liveEndpoint) [1, 0] (documents nanStore)))
            ranking)"
proof -
  let ?score = "scoreAt (arith liveEndpoint) [1, 0] (documents nanStore)"
  have i: "isInitialized nanStore" "documents nanStore \<noteq> []" by (simp_all add: nanStore_def)
  have c: "isConnected (ollama connectedWorld)" by (simp add: connectedWorld_def)
  have bad: "embeddingFailed (embeddings_at liveEndpoint (clock connectedWorld)
              (modelName (ollama connectedWorld)) ''bad'')"
    by (simp add: liveEndpoint_def embeddingFailed_def)
  have ok: "embeddings_at liveEndpoint (clock connectedWorld)
              (modelName (ollama connectedWorld)) ''q'' = EmbeddingsOk [1, 0]"
    by (simp add: liveEndpoint_def)
  have sc: "?score 0 = Num 0" "?score 1 = NaN" "?score 2 = Num 1"
    by (simp_all add: scoreAt_def runtime_live(1) nanStore_def cosine_eval)
  have "length (topK liveEndpoint [1, 0] 3 (documents nanStore)) = 3"
    using sortContract_length [OF runtime_live(4)]
    by (simp add: topK_def length_similarities nanStore_def)
  then have three: "\<exists>found. fst (similaritySearch liveEndpoint ''q'' 3 nanStore connectedWorld) =
      Inr found \<and> length found = 3"
    using similaritySearch_found [OF i(1) c i(2) ok, of 3] by simp
  have none: "fst (similaritySearch liveEndpoint ''bad'' 1 nanStore connectedWorld) = Inr []"
    using similaritySearch_swallows [OF i(1) c i(2) bad, of 1] by simp
  have unranked: "\<not> (\<exists>ranking. set ranking = {0..<3} \<and> sorted_wrt (ranksBefore ?score) ranking)"
  proof
    assume "\<exists>ranking. set ranking = {0..<3} \<and> sorted_wrt (ranksBefore ?score) ranking"
    then obtain ranking where r: "set ranking = {0..<3}"
      "sorted_wrt (ranksBefore ?score) ranking" by blast
    have "(0::nat) \<in> set ranking" "(1::nat) \<in> set ranking" using r(1) by simp_all
    then have "ranksBefore ?score 0 1 \<or> ranksBefore ?score 1 0"
      using sorted_wrt_related [OF r(2), of 0 1] by simp
    moreover have "?score (Suc 0) = NaN" using sc(2) by simp
    ultimately show False by (simp add: ranksBefore_def sc)
  qed
  show ?thesis
    using none three unranked sc by (simp add: nanStore_def)
qed

section \<open>The chat route\<close>

lemma quiet_refl: "quiet w w"
  by (simp add: quiet_def)

lemma quiet_trans: "quiet w w1 \<Longrightarrow> quiet w1 w2 \<Longrightarrow> quiet w w2"
  by (auto simp: quiet_def)

lemma quiet_emit:
  "(\<forall>m p. e \<noteq> GenerateCall m p) \<Longrightarrow> quiet w (emit e w)"
  by (auto simp: quiet_def emit_def)

lemma quiet_detect: "quiet w (snd (detectAvailableModel ep w))"
  by (simp add: detect_trace quiet_emit)

lemma quiet_backoff: "quiet w (backoff retries i w)"
  by (simp add: backoff_def quiet_emit quiet_refl)

lemma quiet_connectWith:
  "quiet w (connectWith m w) \<and> isConnected (ollama (connectWith m w))"
  by (simp add: quiet_def connectWith_def)

lemma quiet_wait:
  "quiet w (snd (waitForConnection_from ep retries i w)) \<and>
   (fst (waitForConnection_from ep retries i w) \<longrightarrow>
      isConnected (ollama (snd (waitForConnection_from ep retries i w))))"
proof (induction ep retries i w rule: waitForConnection_from.induct)
  case (1 ep retries i w)
  show ?case
  proof (cases "i < retries")
    case False
    then show ?thesis
      by (simp add: waitForConnection_from.simps quiet_refl)
  next
    case True
    obtain r w1 where d: "detectAvailableModel ep w = (r, w1)"
      by (cases "detectAvailableModel ep w")
    have q1: "quiet w w1" using quiet_detect [of w ep] d by simp
    show ?thesis
    proof (cases "truthy r")
      case (Some m)
      then have "waitForConnection_from ep retries i w = (True, connectWith m w1)"
        using True d by (simp add: waitForConnection_from.simps)
      then show ?thesis
        using q1 quiet_connectWith [of w1 m] quiet_trans by auto
    next
      case None
      then have step: "waitForConnection_from ep retries i w =
          waitForConnection_from ep retries (Suc i) (backoff retries i w1)"
        using True d by (simp add: waitForConnection_from.simps [of ep retries i w])
      have "quiet w (backoff retries i w1)"
        using q1 quiet_backoff quiet_trans by blast
      then show ?thesis
        unfolding step
        using "1.IH" [OF True d [symmetric] None] quiet_trans by blast
    qed
  qed
qed

lemma quiet_checkConnection:
  "quiet w (snd (checkConnection ep w)) \<and>
   (isRunning (fst (checkConnection ep w)) \<longrightarrow> isConnected (ollama (snd (checkConnection ep w))))"
  using quiet_wait [of w ep maxRetries 0]
  by (auto simp: checkConnection_def waitForConnection_def split: prod.splits)

lemma quiet_ensureConnected: "quiet w (snd (ensureConnected ep w))"
  using quiet_checkConnection [of w ep]
  by (auto simp: ensureConnected_def quiet_refl split: prod.splits)

lemma quiet_embeddings_loop: "quiet w (snd (embeddings_loop ep texts acc w))"
proof (induction texts arbitrary: acc w)
  case Nil
  then show ?case by (simp add: quiet_refl)
next
  case (Cons t ts)
  let ?w1 = "emit (EmbeddingsCall (modelName (ollama w)) t) w"
  have q: "quiet w ?w1" by (simp add: quiet_emit)
  show ?case
  proof (cases "embeddings_at ep (clock w) (modelName (ollama w)) t")
    case (EmbeddingsOk v)
    then have "embeddings_loop ep (t # ts) acc w = embeddings_loop ep ts (acc @ [v]) ?w1"
      by (simp add: Let_def)
    then show ?thesis using Cons.IH [of ?w1 "acc @ [v]"] q quiet_trans by auto
  qed (use q in \<open>simp_all add: Let_def\<close>)
qed

lemma quiet_getEmbeddings: "quiet w (snd (getEmbeddings ep texts w))"
proof -
  obtain r w1 where e: "ensureConnected ep w = (r, w1)" by (cases "ensureConnected ep w")
  have q1: "quiet w w1" using quiet_ensureConnected [of w ep] e by simp
  show ?thesis
  proof (cases r)
    case (Some err)
    then show ?thesis using e q1 by (simp add: getEmbeddings_def)
  next
    case None
    obtain r2 w2 where l: "embeddings_loop ep texts [] w1 = (r2, w2)"
      by (cases "embeddings_loop ep texts [] w1")
    have "quiet w1 w2" using quiet_embeddings_loop [of w1 ep texts "[]"] l by simp
    then have "quiet w w2" using q1 quiet_trans by blast
    then show ?thesis
      using e None l by (auto simp: getEmbeddings_def split: sum.splits js_error.splits)
  qed
qed

lemma quiet_initialize: "quiet w (snd (snd (initialize ep st w)))"
  using quiet_checkConnection [of w ep]
  by (auto simp: initialize_def quiet_refl split: prod.splits)

lemma quiet_ensureInitialized: "quiet w (snd (snd (ensureInitialized ep st w)))"
  by (simp add: ensureInitialized_def quiet_initialize quiet_refl)

lemma quiet_similaritySearch: "quiet w (snd (snd (similaritySearch ep query k st w)))"
proof -
  obtain r st1 w1 where i: "ensureInitialized ep st w = (r, st1, w1)"
    by (cases "ensureInitialized ep st w") auto
  have q1: "quiet w w1" using quiet_ensureInitialized [of w ep st] i by simp
  obtain r2 w2 where g: "getEmbeddings ep [query] w1 = (r2, w2)"
    by (cases "getEmbeddings ep [query] w1")
  have "quiet w1 w2" using quiet_getEmbeddings [of w1 ep "[query]"] g by simp
  then have q2: "quiet w w2" using q1 quiet_trans by blast
  show ?thesis
    using i g q1 q2
    by (auto simp: similaritySearch_def split: sum.splits list.splits)
qed

lemma quiet_initializeVectorStore:
  "quiet (sys s) (sys (snd (initializeVectorStore ep s)))"
  using quiet_initialize [of "sys s" ep newStore]
  by (auto simp: initializeVectorStore_def quiet_refl split: option.splits prod.splits sum.splits)

lemma quiet_searchSimilarChunks:
  "quiet (sys s) (sys (snd (searchSimilarChunks ep query k s)))"
proof -
  obtain r s1 where i: "initializeVectorStore ep s = (r, s1)"
    by (cases "initializeVectorStore ep s")
  have q1: "quiet (sys s) (sys s1)" using quiet_initializeVectorStore [of s ep] i by simp
  show ?thesis
  proof (cases r)
    case (Inl e)
    then show ?thesis using i q1 by (simp add: searchSimilarChunks_def)
  next
    case (Inr st)
    have "quiet (sys s1) (snd (snd (similaritySearch ep query k st (sys s1))))"
      by (rule quiet_similaritySearch)
    then have "quiet (sys s) (snd (snd (similaritySearch ep query k st (sys s1))))"
      using q1 quiet_trans by blast
    then show ?thesis
      using i Inr by (auto simp: searchSimilarChunks_def split: prod.splits)
  qed
qed

lemma quiet_ensureVectorStore:
  "quiet (sys s) (sys (snd (ensureVectorStore ep s)))"
  using quiet_initializeVectorStore [of s ep]
  by (auto simp: ensureVectorStore_def quiet_refl split: prod.splits sum.splits)


lemma generate_connected_result:
  assumes "isConnected (ollama w)"
  shows "generate_at ep (clock w) (modelName (ollama w)) prompt = GenerateOk answer \<Longrightarrow>
           fst (generate ep prompt w) = Inr answer"
    and "generate_at ep (clock w) (modelName (ollama w)) prompt = GenerateThrows msg \<Longrightarrow>
           fst (generate ep prompt w) = Inl (Error (''Failed to generate response: '' @ msg))"
  using assms by (simp_all add: generate_def ensureConnected_def Let_def)

lemma POST_without_context:
  assumes run: "isRunning (fst (checkConnection ep (sys s)))"
    and msg: "message req = Some msg" "msg \<noteq> []"
    and found: "searchSimilarChunks ep msg 3 (s\<lparr>sys := snd (checkConnection ep (sys s))\<rparr>) = (found, s2)"
    and none: "found = Inr [] \<or> (\<exists>e. found = Inl e)"
  shows "POST formatError ep req s =
           (case generate ep (promptWithoutContext (history req) msg) (sys s2) of
              (Inl e, w3) \<Rightarrow> (ErrorResponse 500 (Some (formatError e)), s2\<lparr>sys := w3\<rparr>)
            | (Inr answer, w3) \<Rightarrow> (ChatResponse answer [], s2\<lparr>sys := w3\<rparr>))"
    and "isConnected (ollama (sys s2))"
proof -
  have ctx: "(case found of Inl e \<Rightarrow> [] | Inr cs \<Rightarrow> cs) = []"
    using none by auto
  show "POST formatError ep req s =
           (case generate ep (promptWithoutContext (history req) msg) (sys s2) of
              (Inl e, w3) \<Rightarrow> (ErrorResponse 500 (Some (formatError e)), s2\<lparr>sys := w3\<rparr>)
            | (Inr answer, w3) \<Rightarrow> (ChatResponse answer [], s2\<lparr>sys := w3\<rparr>))"
  proof -
    obtain status w1 where c: "checkConnection ep (sys s) = (status, w1)"
      by (cases "checkConnection ep (sys s)")
    obtain g w3 where g: "generate ep (promptWithoutContext (history req) msg) (sys s2) = (g, w3)"
      by (cases "generate ep (promptWithoutContext (history req) msg) (sys s2)")
    show ?thesis
      using run msg found ctx c g
      by (simp add: POST_def Let_def split: sum.splits)
  qed
  have "isConnected (ollama (snd (checkConnection ep (sys s))))"
    using quiet_checkConnection [of "sys s" ep] run by simp
  moreover have "quiet (snd (checkConnection ep (sys s))) (sys s2)"
    using quiet_searchSimilarChunks [of "s\<lparr>sys := snd (checkConnection ep (sys s))\<rparr>" ep msg 3]
      found by simp
  ultimately show "isConnected (ollama (sys s2))"
    by (simp add: quiet_def)
qed

lemma POST_generates:
  assumes run: "isRunning (fst (checkConnection ep (sys s)))"
    and msg: "message req = Some msg" "msg \<noteq> []"
    and found: "searchSimilarChunks ep msg 3 (s\<lparr>sys := snd (checkConnection ep (sys s))\<rparr>) = (found, s2)"
    and none: "found = Inr [] \<or> (\<exists>e. found = Inl e)"
  shows "trace (sys (snd (POST formatError ep req s))) =
           trace (sys s2) @
           [GenerateCall (modelName (ollama (sys s2))) (promptWithoutContext (history req) msg)]"
    and "generate_at ep (clock (sys s2)) (modelName (ollama (sys s2)))
           (promptWithoutContext (history req) msg) = GenerateOk answer \<Longrightarrow>
         fst (POST formatError ep req s) = ChatResponse answer []"
proof -
  note p = POST_without_context(1) [OF run msg found none, of formatError]
    POST_without_context(2) [OF run msg found none]
  let ?g = "generate ep (promptWithoutContext (history req) msg) (sys s2)"
  have t: "trace (snd ?g) = trace (sys s2) @
           [GenerateCall (modelName (ollama (sys s2))) (promptWithoutContext (history req) msg)]"
    using generate_connected_trace [OF p(2)] .
  show "trace (sys (snd (POST formatError ep req s))) =
           trace (sys s2) @
           [GenerateCall (modelName (ollama (sys s2))) (promptWithoutContext (history req) msg)]"
    using t unfolding p(1) by (cases ?g) (auto split: sum.splits)
  assume "generate_at ep (clock (sys s2)) (modelName (ollama (sys s2)))
           (promptWithoutContext (history req) msg) = GenerateOk answer"
  then have "fst ?g = Inr answer"
    using generate_connected_result(1) [OF p(2)] by simp
  then show "fst (POST formatError ep req s) = ChatResponse answer []"
    unfolding p(1) by (cases ?g) (auto split: sum.splits)
qed

lemma POST_modes_not_found:
  assumes run: "isRunning (fst (checkConnection ep (sys s)))"
    and nochunks: "chunks req = None \<or> chunks req = Some []"
    and msg: "message req = Some msg" "msg \<noteq> []"
    and mode: "isPDFMode req"
    and ens: "ensureVectorStore ep (s\<lparr>sys := snd (checkConnection ep (sys s))\<rparr>) = (None, s1)"
    and found: "searchSimilarChunks ep msg 3 s1 = (Inr [], s2)"
  shows "POST_modes formatError ep req s = (noRelevantInformation, s2)"
    and "quiet (sys s) (sys s2)"
proof -
  show "POST_modes formatError ep req s = (noRelevantInformation, s2)"
    using assms by (auto simp: POST_modes_def case_prod_unfold)
  have "quiet (sys s) (snd (checkConnection ep (sys s)))"
    using quiet_checkConnection by blast
  moreover have "quiet (snd (checkConnection ep (sys s))) (sys s1)"
    using quiet_ensureVectorStore [of "s\<lparr>sys := snd (checkConnection ep (sys s))\<rparr>" ep] ens
    by simp
  moreover have "quiet (sys s1) (sys s2)"
    using quiet_searchSimilarChunks [of s1 ep msg 3] found by simp
  ultimately show "quiet (sys s) (sys s2)"
    using quiet_trans by blast
qed


lemma checkConnection_live:
  "checkConnection liveEndpoint w =
    (\<lparr>isRunning = True, error = None\<rparr>,
     w\<lparr>ollama := (ollama w)\<lparr>modelName := ''llama3.2'', isConnected := True\<rparr>,
       trace := trace w @ [TagsCall]\<rparr>)"
proof (rule checkConnection_selected)
  show "tags_at liveEndpoint (clock w) = TagsOk (Some [''llava-vision'', ''llama3.2:latest''])"
    by (simp add: liveEndpoint_def)
  show "selectModel [''llava-vision'', ''llama3.2:latest''] = Some ''llama3.2''"
    by (simp add: selectModel_def isLlama32_def)
  show "''llama3.2'' \<noteq> []" by simp
qed

lemma checkConnection_flaky_first:
  "checkConnection flakyEndpoint freshWorld =
     (\<lparr>isRunning = True, error = None\<rparr>, liveWorld [TagsCall])"
  by (simp add: checkConnection_def waitForConnection_def waitForConnection_from.simps
      detectAvailableModel_def selectModel_def isLlama32_def truthy_def connectWith_def
      maxRetries_def clock_def emit_def flakyEndpoint_def freshWorld_def liveWorld_def Let_def)

lemma checkConnection_flaky_later:
  "checkConnection flakyEndpoint (liveWorld [TagsCall]) =
     (\<lparr>isRunning = False,
       error = Some (connectError ''http://127.0.0.1:11434'')\<rparr>,
      liveWorld [TagsCall, TagsCall, SleepCall 1000, TagsCall, SleepCall 1000, TagsCall])"
  by (simp add: checkConnection_def waitForConnection_def waitForConnection_from.simps
      detectAvailableModel_def truthy_def backoff_def retryDelay_def
      maxRetries_def clock_def emit_def flakyEndpoint_def liveWorld_def Let_def)

lemma live_fresh: "checkConnection liveEndpoint freshWorld =
    (\<lparr>isRunning = True, error = None\<rparr>, liveWorld [TagsCall])"
  by (simp add: checkConnection_live freshWorld_def liveWorld_def)

lemma live_again: "checkConnection liveEndpoint (liveWorld [TagsCall]) =
    (\<lparr>isRunning = True, error = None\<rparr>, liveWorld [TagsCall, TagsCall])"
  by (simp add: checkConnection_live liveWorld_def)

lemma live_connected: "checkConnection liveEndpoint connectedWorld =
    (\<lparr>isRunning = True, error = None\<rparr>, liveWorld [TagsCall, TagsCall])"
  by (simp add: checkConnection_live liveWorld_def connectedWorld_def)

text \<open>
  C1 (as amended). In the mode-aware handler, a query in PDF mode whose retrieval returns
  zero chunks is answered with the 404 "No relevant information found" error, and no
  generate request is issued on the way. The handler of \<^verbatim>\<open>route.ts\<close> has no document
  mode: when retrieval returns zero chunks it builds the prompt without context, issues
  the generate request, and returns the generated answer with an empty context.
\<close>

theorem chat_zero_chunks:
  "(isRunning (fst (checkConnection ep (sys s))) \<and>
    (chunks req = None \<or> chunks req = Some []) \<and>
    message req = Some msg \<and> msg \<noteq> [] \<and> isPDFMode req \<and>
    ensureVectorStore ep (s\<lparr>sys := snd (checkConnection ep (sys s))\<rparr>) = (None, s1) \<and>
    searchSimilarChunks ep msg 3 s1 = (Inr [], s2) \<longrightarrow>
      POST_modes formatError ep req s = (noRelevantInformation, s2) \<and>
      (\<exists>new. trace (sys s2) = trace (sys s) @ new \<and> (\<forall>m p. GenerateCall m p \<notin> set new))) \<and>
   (isRunning (fst (checkConnection ep' (sys s'))) \<and>
    message req' = Some msg' \<and> msg' \<noteq> [] \<and>
    searchSimilarChunks ep' msg' 3 (s'\<lparr>sys := snd (checkConnection ep' (sys s'))\<rparr>) =
      (Inr [], s2') \<and>
    generate_at ep' (clock (sys s2')) (modelName (ollama (sys s2')))
      (promptWithoutContext (history req') msg') = GenerateOk answer \<longrightarrow>
      trace (sys (snd (POST formatError' ep' req' s'))) =
        trace (sys s2') @
        [GenerateCall (modelName (ollama (sys s2'))) (promptWithoutContext (history req') msg')] \<and>
      fst (POST formatError' ep' req' s') = ChatResponse answer [])"
proof (intro conjI impI)
  assume a: "isRunning (fst (checkConnection ep (sys s))) \<and>
    (chunks req = None \<or> chunks req = Some []) \<and>
    message req = Some msg \<and> msg \<noteq> [] \<and> isPDFMode req \<and>
    ensureVectorStore ep (s\<lparr>sys := snd (checkConnection ep (sys s))\<rparr>) = (None, s1) \<and>
    searchSimilarChunks ep msg 3 s1 = (Inr [], s2)"
  then show "POST_modes formatError ep req s = (noRelevantInformation, s2)"
    using POST_modes_not_found(1) [of ep s req msg s1 s2 formatError] by blast
  have "quiet (sys s) (sys s2)"
    using a POST_modes_not_found(2) [of ep s req msg s1 s2] by blast
  then show "\<exists>new. trace (sys s2) = trace (sys s) @ new \<and> (\<forall>m p. GenerateCall m p \<notin> set new)"
    by (simp add: quiet_def)
next
  assume a: "isRunning (fst (checkConnection ep' (sys s'))) \<and>
    message req' = Some msg' \<and> msg' \<noteq> [] \<and>
    searchSimilarChunks ep' msg' 3 (s'\<lparr>sys := snd (checkConnection ep' (sys s'))\<rparr>) =
      (Inr [], s2') \<and>
    generate_at ep' (clock (sys s2')) (modelName (ollama (sys s2')))
      (promptWithoutContext (history req') msg') = GenerateOk answer"
  then show "trace (sys (snd (POST formatError' ep' req' s'))) =
        trace (sys s2') @
        [GenerateCall (modelName (ollama (sys s2'))) (promptWithoutContext (history req') msg')]"
    using POST_generates(1) [of ep' s' req' msg' "Inr []" s2' formatError'] by blast
  show "fst (POST formatError' ep' req' s') = ChatResponse answer []"
    using a POST_generates(2) [of ep' s' req' msg' "Inr []" s2' answer formatError'] by blast
qed


lemma search_fresh_live:
  "searchSimilarChunks liveEndpoint ''hello'' 3 (freshApp\<lparr>sys := liveWorld [TagsCall]\<rparr>) =
     (Inr [], \<lparr>vectorStore = Some readyStore, routeInitialized = False,
               sys = liveWorld [TagsCall, TagsCall]\<rparr>)"
  by (simp add: searchSimilarChunks_def initializeVectorStore_def initialize_def live_again
      similaritySearch_def ensureInitialized_def freshApp_def newStore_def readyStore_def)

lemma ensure_fresh_live:
  "ensureVectorStore liveEndpoint (freshApp\<lparr>sys := liveWorld [TagsCall]\<rparr>) =
     (None, \<lparr>vectorStore = Some readyStore, routeInitialized = True,
              sys = liveWorld [TagsCall, TagsCall]\<rparr>)"
  by (simp add: ensureVectorStore_def initializeVectorStore_def initialize_def live_again
      freshApp_def newStore_def readyStore_def)

lemma search_ready_live:
  "searchSimilarChunks liveEndpoint ''hello'' 3
     \<lparr>vectorStore = Some readyStore, routeInitialized = True,
      sys = liveWorld [TagsCall, TagsCall]\<rparr> =
     (Inr [], \<lparr>vectorStore = Some readyStore, routeInitialized = True,
               sys = liveWorld [TagsCall, TagsCall]\<rparr>)"
  by (simp add: searchSimilarChunks_def initializeVectorStore_def
      similaritySearch_def ensureInitialized_def readyStore_def)

theorem chat_zero_chunks_witness:
  "isPDFMode helloRequest \<and>
   POST_modes errorMessage liveEndpoint helloRequest freshApp =
     (noRelevantInformation,
      \<lparr>vectorStore = Some readyStore, routeInitialized = True,
       sys = liveWorld [TagsCall, TagsCall]\<rparr>) \<and>
   trace (sys (snd (POST errorMessage liveEndpoint helloRequest freshApp))) =
     [TagsCall, TagsCall, GenerateCall ''llama3.2'' (promptWithoutContext [] ''hello'')] \<and>
   fst (POST errorMessage liveEndpoint helloRequest freshApp) = ChatResponse ''an answer'' []"
proof -
  let ?s1 = "\<lparr>vectorStore = Some readyStore, routeInitialized = True,
              sys = liveWorld [TagsCall, TagsCall]\<rparr>"
  let ?s2' = "\<lparr>vectorStore = Some readyStore, routeInitialized = False,
               sys = liveWorld [TagsCall, TagsCall]\<rparr>"
  have c: "checkConnection liveEndpoint (sys freshApp) =
             (\<lparr>isRunning = True, error = None\<rparr>, liveWorld [TagsCall])"
    by (simp add: freshApp_def live_fresh)
  have h1: "isRunning (fst (checkConnection liveEndpoint (sys freshApp))) \<and>
    (chunks helloRequest = None \<or> chunks helloRequest = Some []) \<and>
    message helloRequest = Some ''hello'' \<and> ''hello'' \<noteq> [] \<and> isPDFMode helloRequest \<and>
    ensureVectorStore liveEndpoint
      (freshApp\<lparr>sys := snd (checkConnection liveEndpoint (sys freshApp))\<rparr>) = (None, ?s1) \<and>
    searchSimilarChunks liveEndpoint ''hello'' 3 ?s1 = (Inr [], ?s1)"
    by (simp add: c helloRequest_def ensure_fresh_live search_ready_live)
  have h2: "isRunning (fst (checkConnection liveEndpoint (sys freshApp))) \<and>
    message helloRequest = Some ''hello'' \<and> ''hello'' \<noteq> [] \<and>
    searchSimilarChunks liveEndpoint ''hello'' 3
      (freshApp\<lparr>sys := snd (checkConnection liveEndpoint (sys freshApp))\<rparr>) = (Inr [], ?s2') \<and>
    generate_at liveEndpoint (clock (sys ?s2')) (modelName (ollama (sys ?s2')))
      (promptWithoutContext (history helloRequest) ''hello'') = GenerateOk ''an answer''"
  proof -
    have "generate_at liveEndpoint (clock (sys ?s2')) (modelName (ollama (sys ?s2')))
      (promptWithoutContext (history helloRequest) ''hello'') = GenerateOk ''an answer''"
      by (simp add: liveEndpoint_def)
    then show ?thesis
      by (simp add: c helloRequest_def search_fresh_live)
  qed
  have t: "trace (sys freshApp) = []" "trace (sys ?s2') = [TagsCall, TagsCall]"
    "modelName (ollama (sys ?s2')) = ''llama3.2''" "history helloRequest = []"
    by (simp_all add: freshApp_def freshWorld_def liveWorld_def helloRequest_def)
  show ?thesis
    using chat_zero_chunks [of liveEndpoint freshApp helloRequest "''hello''" ?s1 ?s1
        errorMessage liveEndpoint freshApp helloRequest "''hello''" ?s2' "''an answer''"
        errorMessage] h1 h2 t
    by simp
qed

text \<open>
  C1 as stated fails on the handler of \<^verbatim>\<open>route.ts\<close>: a request sent in PDF mode
  against an empty store finds zero chunks, and the handler still issues the generate
  request and returns the generated answer with an empty context.
\<close>

theorem chat_zero_chunks_counterexample:
  "isPDFMode helloRequest \<and> vectorStore freshApp = None \<and>
   fst (searchSimilarChunks liveEndpoint ''hello'' 3
          (freshApp\<lparr>sys := snd (checkConnection liveEndpoint (sys freshApp))\<rparr>)) = Inr [] \<and>
   fst (POST errorMessage liveEndpoint helloRequest freshApp) = ChatResponse ''an answer'' [] \<and>
   trace (sys (snd (POST errorMessage liveEndpoint helloRequest freshApp))) =
     [TagsCall, TagsCall, GenerateCall ''llama3.2'' (promptWithoutContext [] ''hello'')]"
proof -
  let ?s2 = "\<lparr>vectorStore = Some readyStore, routeInitialized = False,
              sys = liveWorld [TagsCall, TagsCall]\<rparr>"
  have c: "checkConnection liveEndpoint (sys freshApp) =
             (\<lparr>isRunning = True, error = None\<rparr>, liveWorld [TagsCall])"
    by (simp add: freshApp_def live_fresh)
  have run: "isRunning (fst (checkConnection liveEndpoint (sys freshApp)))"
    by (simp add: c)
  have msg: "message helloRequest = Some ''hello''" "''hello'' \<noteq> []"
    by (simp_all add: helloRequest_def)
  have found: "searchSimilarChunks liveEndpoint ''hello'' 3
      (freshApp\<lparr>sys := snd (checkConnection liveEndpoint (sys freshApp))\<rparr>) = (Inr [], ?s2)"
    by (simp add: c search_fresh_live)
  have none: "Inr [] = (Inr [] :: js_error + string list) \<or> (\<exists>e. (Inr [] :: js_error + string list) = Inl e)"
    by simp
  have gen: "generate_at liveEndpoint (clock (sys ?s2)) (modelName (ollama (sys ?s2)))
      (promptWithoutContext (history helloRequest) ''hello'') = GenerateOk ''an answer''"
    by (simp add: liveEndpoint_def)
  have "trace (sys (snd (POST errorMessage liveEndpoint helloRequest freshApp))) =
      trace (sys ?s2) @ [GenerateCall (modelName (ollama (sys ?s2)))
        (promptWithoutContext (history helloRequest) ''hello'')]"
    by (rule POST_generates(1) [OF run msg found none])
  moreover have "fst (POST errorMessage liveEndpoint helloRequest freshApp) =
      ChatResponse ''an answer'' []"
    by (rule POST_generates(2) [OF run msg found none gen])
  ultimately show ?thesis
    using found by (simp add: helloRequest_def freshApp_def liveWorld_def)
qed


lemma getEmbeddings_bad:
  "getEmbeddings liveEndpoint [''bad''] (liveWorld evs) =
     (Inl (Error (''Failed to generate embeddings: '' @
                  ''Failed to get embeddings: Internal Server Error'')),
      liveWorld (evs @ [EmbeddingsCall ''llama3.2'' ''bad'']))"
  by (simp add: getEmbeddings_def ensureConnected_def liveWorld_def liveEndpoint_def
      emit_def Let_def)

lemma connectedWorld_live: "connectedWorld = liveWorld [TagsCall]"
  by (simp add: connectedWorld_def liveWorld_def)

lemma search_flaky:
  "searchSimilarChunks flakyEndpoint ''hello'' 3 (freshApp\<lparr>sys := liveWorld [TagsCall]\<rparr>) =
     (Inl (Error (connectError ''http://127.0.0.1:11434'')),
      \<lparr>vectorStore = Some newStore, routeInitialized = False,
       sys = liveWorld [TagsCall, TagsCall, SleepCall 1000, TagsCall, SleepCall 1000, TagsCall]\<rparr>)"
  by (simp add: searchSimilarChunks_def initializeVectorStore_def initialize_def
      checkConnection_flaky_later freshApp_def newStore_def connectError_def)

lemma search_bad:
  "searchSimilarChunks liveEndpoint ''bad'' 3 (loadedApp\<lparr>sys := liveWorld [TagsCall, TagsCall]\<rparr>) =
     (Inr [],
      \<lparr>vectorStore = Some nanStore, routeInitialized = True,
       sys = liveWorld [TagsCall, TagsCall, EmbeddingsCall ''llama3.2'' ''bad'']\<rparr>)"
  by (simp add: searchSimilarChunks_def initializeVectorStore_def similaritySearch_def
      ensureInitialized_def getEmbeddings_bad loadedApp_def nanStore_def)

text \<open>
  C2 (as amended). Errors raised outside the retry loop do not all reach the caller
  unmodified. A failure of the query embedding inside \<^verbatim>\<open>similaritySearch\<close> is caught
  and an empty result returned in its place. The handler of \<^verbatim>\<open>route.ts\<close> catches any
  error of \<^verbatim>\<open>searchSimilarChunks\<close> and goes on to generate an answer from the prompt
  without context. \<^verbatim>\<open>generate\<close> rethrows a transport failure under a new message.
  An embedding failure inside \<^verbatim>\<open>addDocuments\<close> does propagate to the caller as it is.
\<close>

theorem retrieval_errors_swallowed:
  "(isInitialized st \<and> documents st \<noteq> [] \<and> getEmbeddings ep [query] w = (Inl e, w1) \<longrightarrow>
      similaritySearch ep query k st w = (Inr [], st, w1)) \<and>
   (isRunning (fst (checkConnection ep' (sys s))) \<and>
    message req = Some msg \<and> msg \<noteq> [] \<and>
    searchSimilarChunks ep' msg 3 (s\<lparr>sys := snd (checkConnection ep' (sys s))\<rparr>) = (Inl e', s2) \<and>
    generate_at ep' (clock (sys s2)) (modelName (ollama (sys s2)))
      (promptWithoutContext (history req) msg) = GenerateOk answer \<longrightarrow>
      fst (POST formatError ep' req s) = ChatResponse answer [] \<and>
      trace (sys (snd (POST formatError ep' req s))) =
        trace (sys s2) @
        [GenerateCall (modelName (ollama (sys s2))) (promptWithoutContext (history req) msg)]) \<and>
   (isConnected (ollama w') \<and>
    generate_at ep'' (clock w') (modelName (ollama w')) prompt = GenerateThrows cause \<longrightarrow>
      fst (generate ep'' prompt w') = Inl (Error (''Failed to generate response: '' @ cause))) \<and>
   (isInitialized st' \<and> getEmbeddings ep''' docs w'' = (Inl e'', w''') \<longrightarrow>
      addDocuments ep''' docs st' w'' = (Inl e'', st', w'''))"
proof (intro conjI impI)
  assume "isInitialized st \<and> documents st \<noteq> [] \<and> getEmbeddings ep [query] w = (Inl e, w1)"
  then show "similaritySearch ep query k st w = (Inr [], st, w1)"
    by (simp add: similaritySearch_def ensureInitialized_def)
next
  assume a: "isRunning (fst (checkConnection ep' (sys s))) \<and>
    message req = Some msg \<and> msg \<noteq> [] \<and>
    searchSimilarChunks ep' msg 3 (s\<lparr>sys := snd (checkConnection ep' (sys s))\<rparr>) = (Inl e', s2) \<and>
    generate_at ep' (clock (sys s2)) (modelName (ollama (sys s2)))
      (promptWithoutContext (history req) msg) = GenerateOk answer"
  show "fst (POST formatError ep' req s) = ChatResponse answer []"
    using a POST_generates(2) [of ep' s req msg "Inl e'" s2 answer formatError] by blast
  show "trace (sys (snd (POST formatError ep' req s))) =
        trace (sys s2) @
        [GenerateCall (modelName (ollama (sys s2))) (promptWithoutContext (history req) msg)]"
    using a POST_generates(1) [of ep' s req msg "Inl e'" s2 formatError] by blast
next
  assume "isConnected (ollama w') \<and>
    generate_at ep'' (clock w') (modelName (ollama w')) prompt = GenerateThrows cause"
  then show "fst (generate ep'' prompt w') = Inl (Error (''Failed to generate response: '' @ cause))"
    using generate_connected_result(2) by blast
next
  assume "isInitialized st' \<and> getEmbeddings ep''' docs w'' = (Inl e'', w''')"
  then show "addDocuments ep''' docs st' w'' = (Inl e'', st', w''')"
    by (simp add: addDocuments_def ensureInitialized_def)
qed


theorem retrieval_errors_swallowed_witness:
  "similaritySearch liveEndpoint ''bad'' 3 nanStore connectedWorld =
     (Inr [], nanStore, liveWorld [TagsCall, EmbeddingsCall ''llama3.2'' ''bad'']) \<and>
   fst (POST errorMessage flakyEndpoint helloRequest freshApp) = ChatResponse ''an answer'' [] \<and>
   fst (generate deadEndpoint ''hi'' connectedWorld) =
     Inl (Error ''Failed to generate response: fetch failed'') \<and>
   addDocuments liveEndpoint [''bad''] nanStore connectedWorld =
     (Inl (Error (''Failed to generate embeddings: '' @
                  ''Failed to get embeddings: Internal Server Error'')),
      nanStore, liveWorld [TagsCall, EmbeddingsCall ''llama3.2'' ''bad''])"
proof -
  let ?e = "Error (''Failed to generate embeddings: '' @
                   ''Failed to get embeddings: Internal Server Error'')"
  let ?w1 = "liveWorld [TagsCall, EmbeddingsCall ''llama3.2'' ''bad'']"
  let ?s2 = "\<lparr>vectorStore = Some newStore, routeInitialized = False,
       sys = liveWorld [TagsCall, TagsCall, SleepCall 1000, TagsCall, SleepCall 1000, TagsCall]\<rparr>"
  have g: "getEmbeddings liveEndpoint [''bad''] connectedWorld = (Inl ?e, ?w1)"
    using getEmbeddings_bad [of "[TagsCall]"] by (simp add: connectedWorld_live)
  have h1: "isInitialized nanStore \<and> documents nanStore \<noteq> [] \<and>
            getEmbeddings liveEndpoint [''bad''] connectedWorld = (Inl ?e, ?w1)"
    using g by (simp add: nanStore_def)
  have c: "checkConnection flakyEndpoint (sys freshApp) =
             (\<lparr>isRunning = True, error = None\<rparr>, liveWorld [TagsCall])"
    by (simp add: freshApp_def checkConnection_flaky_first)
  have gen: "generate_at flakyEndpoint (clock (sys ?s2)) (modelName (ollama (sys ?s2)))
      (promptWithoutContext (history helloRequest) ''hello'') = GenerateOk ''an answer''"
    by (simp add: flakyEndpoint_def)
  have h2: "isRunning (fst (checkConnection flakyEndpoint (sys freshApp))) \<and>
    message helloRequest = Some ''hello'' \<and> ''hello'' \<noteq> [] \<and>
    searchSimilarChunks flakyEndpoint ''hello'' 3
      (freshApp\<lparr>sys := snd (checkConnection flakyEndpoint (sys freshApp))\<rparr>) =
      (Inl (Error (connectError ''http://127.0.0.1:11434'')), ?s2) \<and>
    generate_at flakyEndpoint (clock (sys ?s2)) (modelName (ollama (sys ?s2)))
      (promptWithoutContext (history helloRequest) ''hello'') = GenerateOk ''an answer''"
    using gen by (simp add: c helloRequest_def search_flaky)
  have h3: "isConnected (ollama connectedWorld) \<and>
    generate_at deadEndpoint (clock connectedWorld) (modelName (ollama connectedWorld)) ''hi'' =
      GenerateThrows ''fetch failed''"
    by (simp add: connectedWorld_def deadEndpoint_def)
  have h4: "isInitialized nanStore \<and>
            getEmbeddings liveEndpoint [''bad''] connectedWorld = (Inl ?e, ?w1)"
    using g by (simp add: nanStore_def)
  show ?thesis
    using retrieval_errors_swallowed [where st = nanStore and ep = liveEndpoint
        and query = "''bad''" and w = connectedWorld and e = ?e and ?w1.0 = ?w1 and k = 3
        and ep' = flakyEndpoint and s = freshApp and req = helloRequest and msg = "''hello''"
        and e' = "Error (connectError ''http://127.0.0.1:11434'')" and ?s2.0 = ?s2
        and answer = "''an answer''" and formatError = errorMessage
        and w' = connectedWorld and ep'' = deadEndpoint and prompt = "''hi''"
        and cause = "''fetch failed''"
        and st' = nanStore and ep''' = liveEndpoint and docs = "[''bad'']"
        and w'' = connectedWorld and e'' = ?e and w''' = ?w1]
      h1 h2 h3 h4
    by simp
qed

text \<open>
  C2 as stated fails: with a loaded store and a failing embeddings call for the query,
  \<^verbatim>\<open>getEmbeddings\<close> raises its error, \<^verbatim>\<open>searchSimilarChunks\<close> returns the empty
  list instead of that error, and the handler of \<^verbatim>\<open>route.ts\<close> answers with a generated
  response built from the prompt without context.
\<close>

theorem retrieval_errors_swallowed_counterexample:
  "fst (getEmbeddings liveEndpoint [''bad''] (liveWorld [TagsCall, TagsCall])) =
     Inl (Error (''Failed to generate embeddings: '' @
                 ''Failed to get embeddings: Internal Server Error'')) \<and>
   fst (searchSimilarChunks liveEndpoint ''bad'' 3
          (loadedApp\<lparr>sys := snd (checkConnection liveEndpoint (sys loadedApp))\<rparr>)) = Inr [] \<and>
   fst (POST errorMessage liveEndpoint badRequest loadedApp) = ChatResponse ''an answer'' [] \<and>
   trace (sys (snd (POST errorMessage liveEndpoint badRequest loadedApp))) =
     [TagsCall, TagsCall, EmbeddingsCall ''llama3.2'' ''bad'',
      GenerateCall ''llama3.2'' (promptWithoutContext [] ''bad'')]"
proof -
  let ?s2 = "\<lparr>vectorStore = Some nanStore, routeInitialized = True,
       sys = liveWorld [TagsCall, TagsCall, EmbeddingsCall ''llama3.2'' ''bad'']\<rparr>"
  have c: "checkConnection liveEndpoint (sys loadedApp) =
             (\<lparr>isRunning = True, error = None\<rparr>, liveWorld [TagsCall, TagsCall])"
    by (simp add: loadedApp_def live_connected)
  have run: "isRunning (fst (checkConnection liveEndpoint (sys loadedApp)))"
    by (simp add: c)
  have msg: "message badRequest = Some ''bad''" "''bad'' \<noteq> []"
    by (simp_all add: badRequest_def)
  have found: "searchSimilarChunks liveEndpoint ''bad'' 3
      (loadedApp\<lparr>sys := snd (checkConnection liveEndpoint (sys loadedApp))\<rparr>) = (Inr [], ?s2)"
    by (simp add: c search_bad)
  have none: "Inr [] = (Inr [] :: js_error + string list) \<or>
              (\<exists>e. (Inr [] :: js_error + string list) = Inl e)"
    by simp
  have gen: "generate_at liveEndpoint (clock (sys ?s2)) (modelName (ollama (sys ?s2)))
      (promptWithoutContext (history badRequest) ''bad'') = GenerateOk ''an answer''"
    by (simp add: liveEndpoint_def)
  have "trace (sys (snd (POST errorMessage liveEndpoint badRequest loadedApp))) =
      trace (sys ?s2) @ [GenerateCall (modelName (ollama (sys ?s2)))
        (promptWithoutContext (history badRequest) ''bad'')]"
    by (rule POST_generates(1) [OF run msg found none])
  moreover have "fst (POST errorMessage liveEndpoint badRequest loadedApp) =
      ChatResponse ''an answer'' []"
    by (rule POST_generates(2) [OF run msg found none gen])
  ultimately show ?thesis
    using found getEmbeddings_bad [of "[TagsCall, TagsCall]"]
    by (simp add: badRequest_def liveWorld_def)
qed


end
